theory Spec2Isabelle
  imports Complex_Main "HOL-Library.Char_ord"
begin

section \<open>The lexer (lex.go)\<close>

text \<open>
  The source is read through a \<^verbatim>\<open>bufio.Reader\<close>. It is modelled by the bytes still to be
  read (a \<^typ>\<open>string\<close>) together with the error \<open>fin\<close> that the reader reports once the
  bytes are used up (\<open>EOF\<close> for an ordinary end of input). \<^verbatim>\<open>ReadRune\<close> decodes UTF-8; every
  byte of a multi-byte sequence is \<open>0x80\<close> or more, and the lexer treats every rune from
  \<open>0x80\<close> on alike (an identifier character, copied unchanged into the token), so reading a
  well-formed UTF-8 input byte by byte classifies and copies it exactly as reading it rune by
  rune does.
\<close>

datatype NumErr = ErrSyntax | ErrRange

datatype error =
    EOF
  | ErrUnexpectedEOF
  | ReadFailure
  | Errorf string
  | NumError NumErr
  | UnquoteErrSyntax

datatype tokenKind =
    badToken
  | semiToken
  | identToken
  | openToken
  | closeToken
  | commaToken
  | numberToken
  | hexToken
  | stringToken
  | triquoteToken

record token =
  Kind :: tokenKind
  Value :: string
  Err :: "error option"

text \<open>The state functions of the lexer that are passed around as values; \<open>None\<close> is \<^verbatim>\<open>nil\<close>.\<close>

datatype lexFn = EatSpace | LexIdent | LexOp | LexNumber | LexString

text \<open>
  One call of a state function either panics (with the rune it panicked on) or returns: the
  tokens it sent on the channel, in order, the next state, and the bytes left in the reader.
\<close>

datatype step = Panic char | Next "token list" "lexFn option" string

definition ReadRune :: "error \<Rightarrow> string \<Rightarrow> char \<times> error option \<times> string" where
  "ReadRune fin src = (case src of [] \<Rightarrow> (CHR 0x00, Some fin, []) | r # rest \<Rightarrow> (r, None, rest))"

text \<open>
  \<^verbatim>\<open>accept\<close>: the run of characters satisfying the predicate is appended to \<open>b\<close>; the first
  rune that does not satisfy it is returned and left unread.
\<close>

fun accept :: "error \<Rightarrow> (char \<Rightarrow> bool) \<Rightarrow> string \<Rightarrow> string \<Rightarrow> string \<times> char \<times> error option \<times> string" where
  "accept fin predicate [] b = (b, CHR 0x00, Some fin, [])"
| "accept fin predicate (r # src) b =
     (if \<not> predicate r then (b, r, None, r # src)
      else accept fin predicate src (b @ [r]))"

definition lexsend :: "error option \<Rightarrow> token \<Rightarrow> token \<times> lexFn option" where
  "lexsend err good =
     (let good' = (if err \<noteq> None \<and> err \<noteq> Some EOF
                   then good\<lparr>Kind := badToken, Err := err\<rparr> else good)
      in (good', if err \<noteq> None then None else Some EatSpace))"

definition sends :: "token list \<Rightarrow> token \<times> lexFn option \<Rightarrow> string \<Rightarrow> step" where
  "sends sent r src = Next (sent @ [fst r]) (snd r) src"

definition isSpace :: "char \<Rightarrow> bool" where
  "isSpace r = (r \<in> set [CHR '' '', CHR 0x0D, CHR 0x0C, CHR 0x09, CHR 0x0B])"

definition isOpRune :: "char \<Rightarrow> bool" where
  "isOpRune r = (r \<in> set [CHR ''!'', CHR ''$'', CHR ''%'', CHR ''&'', CHR 0x27, CHR ''*'',
     CHR ''+'', CHR ''-'', CHR ''/'', CHR '':'', CHR ''<'', CHR ''='', CHR ''>'', CHR ''?'',
     CHR ''@'', CHR 0x5C, CHR ''^'', CHR ''|'', CHR ''~''])"

definition isDigit :: "char \<Rightarrow> bool" where
  "isDigit r = (CHR ''0'' \<le> r \<and> r \<le> CHR ''9'')"

definition isHexDigit :: "char \<Rightarrow> bool" where
  "isHexDigit r = (CHR ''0'' \<le> r \<and> r \<le> CHR ''9'' \<or> CHR ''a'' \<le> r \<and> r \<le> CHR ''f'' \<or>
     CHR ''A'' \<le> r \<and> r \<le> CHR ''F'')"

definition isIdentRune :: "char \<Rightarrow> bool" where
  "isIdentRune r = (CHR ''a'' \<le> r \<and> r \<le> CHR ''z'' \<or> CHR ''A'' \<le> r \<and> r \<le> CHR ''Z'' \<or>
     CHR ''0'' \<le> r \<and> r \<le> CHR ''9'' \<or> r = CHR ''_'' \<or> r = CHR ''.'' \<or> CHR 0x80 \<le> r)"

fun eatSpace :: "error \<Rightarrow> string \<Rightarrow> step" where
  "eatSpace fin [] =
     (if fin \<noteq> EOF
      then Next [\<lparr>Kind = badToken, Value = [CHR 0x00], Err = Some fin\<rparr>] None []
      else Next [] None [])"
| "eatSpace fin (r # src) =
     (if isSpace r then eatSpace fin src
      else if r = CHR '';'' \<or> r = CHR 0x0A
        then Next [\<lparr>Kind = semiToken, Value = [r], Err = None\<rparr>] (Some EatSpace) src
      else if CHR ''a'' \<le> r \<and> r \<le> CHR ''z'' \<or> CHR ''A'' \<le> r \<and> r \<le> CHR ''Z'' \<or>
              r = CHR ''_'' \<or> CHR 0x80 \<le> r
        then Next [] (Some LexIdent) (r # src)
      else if isOpRune r
        then Next [] (Some LexOp) (r # src)
      else if r \<in> set ''([{''
        then Next [\<lparr>Kind = openToken, Value = [r], Err = None\<rparr>] (Some EatSpace) src
      else if r \<in> set '')]}''
        then Next [\<lparr>Kind = closeToken, Value = [r], Err = None\<rparr>] (Some EatSpace) src
      else if r = CHR '',''
        then Next [\<lparr>Kind = commaToken, Value = '','', Err = None\<rparr>] (Some EatSpace) src
      else if CHR ''0'' \<le> r \<and> r \<le> CHR ''9''
        then Next [] (Some LexNumber) (r # src)
      else if r = CHR ''.''
        then (let peek = take 2 (r # src)
              in if length peek > 1 \<and> CHR ''0'' \<le> peek ! 1 \<and> peek ! 1 \<le> CHR ''9''
                 then Next [] (Some LexNumber) (r # src)
                 else Next [] (Some LexIdent) (r # src))
      else if r = CHR 0x22
        then Next [] (Some LexString) (r # src)
      else Panic r)"

definition lexIdent :: "error \<Rightarrow> string \<Rightarrow> step" where
  "lexIdent fin src =
     (case accept fin isIdentRune src [] of (b, _, err, src') \<Rightarrow>
        sends [] (lexsend err \<lparr>Kind = identToken, Value = b, Err = None\<rparr>) src')"

definition lexOp :: "error \<Rightarrow> string \<Rightarrow> step" where
  "lexOp fin src =
     (case accept fin isOpRune src [] of (b, _, err, src') \<Rightarrow>
        sends [] (lexsend err \<lparr>Kind = identToken, Value = b, Err = None\<rparr>) src')"

text \<open>
  The last part of \<^verbatim>\<open>lexNumber\<close>: the exponent block and the final \<^verbatim>\<open>lexsend\<close>. \<open>sent\<close> holds
  the tokens the function has already sent, \<open>b\<close>, \<open>r\<close>, \<open>err\<close> are its local variables.
\<close>

definition lexNumber_exp :: "error \<Rightarrow> token list \<Rightarrow> string \<Rightarrow> char \<Rightarrow> error option \<Rightarrow> string \<Rightarrow> step" where
  "lexNumber_exp fin sent b r err src =
     (if r = CHR ''e'' \<or> r = CHR ''E'' then
        (case ReadRune fin src of (r1, err1, src1) \<Rightarrow>
           if err1 \<noteq> None
           then sends sent (lexsend err1 \<lparr>Kind = numberToken, Value = b, Err = None\<rparr>) src1
           else
             (case (if r1 = CHR ''-'' \<or> r1 = CHR ''+''
                    then (case ReadRune fin src1 of (r2, err2, src2) \<Rightarrow> (b @ [CHR ''e'', r2], src2))
                    else (b @ [CHR ''e''], src1)) of (b1, src3) \<Rightarrow>
                (case accept fin isDigit src3 b1 of (b2, _, err3, src4) \<Rightarrow>
                   sends sent (lexsend err3 \<lparr>Kind = numberToken, Value = b2, Err = None\<rparr>) src4)))
      else sends sent (lexsend err \<lparr>Kind = numberToken, Value = b, Err = None\<rparr>) src)"

definition lexNumber :: "error \<Rightarrow> string \<Rightarrow> step" where
  "lexNumber fin src =
     (case accept fin isDigit src [] of (b, r, err, src1) \<Rightarrow>
        if err \<noteq> None
        then sends [] (lexsend err \<lparr>Kind = numberToken, Value = b, Err = None\<rparr>) src1
        else
          (case (if r = CHR ''x'' \<or> r = CHR ''X''
                 then (case accept fin isHexDigit src1 (b @ ''x'') of (bx, _, errx, srcx) \<Rightarrow>
                         ([fst (lexsend errx \<lparr>Kind = numberToken, Value = bx, Err = None\<rparr>)],
                          bx, errx, srcx))
                 else ([], b, err, src1)) of (sent, b1, err1, src2) \<Rightarrow>
             if r = CHR ''.'' then
               (case ReadRune fin src2 of (_, err2, src3) \<Rightarrow>
                  if err2 \<noteq> None
                  then sends sent (lexsend err2 \<lparr>Kind = numberToken, Value = b1 @ ''.'', Err = None\<rparr>) src3
                  else
                    (case accept fin isDigit src3 (b1 @ ''.'') of (b2, r2, err3, src4) \<Rightarrow>
                       if err3 \<noteq> None
                       then sends sent (lexsend err3 \<lparr>Kind = numberToken, Value = b2, Err = None\<rparr>) src4
                       else lexNumber_exp fin sent b2 r2 err3 src4))
             else lexNumber_exp fin sent b1 r err1 src2))"

text \<open>
  \<^verbatim>\<open>src.Read(b)\<close> on a slice of length \<open>n\<close>: the bytes read overwrite the front of the
  zero-filled slice.
\<close>

definition Read :: "nat \<Rightarrow> string \<Rightarrow> string \<times> string" where
  "Read n src = (take n src @ replicate (n - length src) (CHR 0x00), drop n src)"

fun triquoteLoop :: "error \<Rightarrow> string \<Rightarrow> string \<Rightarrow> step" where
  "triquoteLoop fin b [] =
     Next [\<lparr>Kind = badToken, Value = b,
            Err = Some (if fin = EOF then ErrUnexpectedEOF else fin)\<rparr>] None []"
| "triquoteLoop fin b (r # src) =
     (if r = CHR 0x22 \<and> take 2 src = [CHR 0x22, CHR 0x22]
      then sends [] (lexsend None \<lparr>Kind = triquoteToken,
                       Value = b @ [CHR 0x22, CHR 0x22, CHR 0x22], Err = None\<rparr>) src
      else triquoteLoop fin (b @ [r]) src)"

definition lexTriquote :: "error \<Rightarrow> string \<Rightarrow> step" where
  "lexTriquote fin src = (case Read 3 src of (b, src') \<Rightarrow> triquoteLoop fin b src')"

fun monoquoteLoop :: "error \<Rightarrow> string \<Rightarrow> string \<Rightarrow> step" where
  "monoquoteLoop fin b [] =
     Next [\<lparr>Kind = badToken, Value = b,
            Err = Some (if fin = EOF then ErrUnexpectedEOF else fin)\<rparr>] None []"
| "monoquoteLoop fin b (r # src) =
     (if r = CHR 0x5C then monoquoteLoop fin (b @ [r]) src
      else if r = CHR 0x22
        then sends [] (lexsend None \<lparr>Kind = stringToken, Value = b @ [r], Err = None\<rparr>) src
      else monoquoteLoop fin (b @ [r]) src)"

definition lexMonoquote :: "error \<Rightarrow> string \<Rightarrow> step" where
  "lexMonoquote fin src = (case Read 1 src of (b, src') \<Rightarrow> monoquoteLoop fin b src')"

definition lexString :: "error \<Rightarrow> string \<Rightarrow> step" where
  "lexString fin src =
     (if take 3 src = [CHR 0x22, CHR 0x22, CHR 0x22] then lexTriquote fin src
      else lexMonoquote fin src)"

fun run :: "lexFn \<Rightarrow> error \<Rightarrow> string \<Rightarrow> step" where
  "run EatSpace = eatSpace"
| "run LexIdent = lexIdent"
| "run LexOp = lexOp"
| "run LexNumber = lexNumber"
| "run LexString = lexString"

subsection \<open>The lexer loop ends\<close>

text \<open>
  Every call of a state function either ends the loop or leaves a smaller configuration, so
  the loop of \<^verbatim>\<open>lex\<close> is a total function of the input.
\<close>

lemma accept_length:
  "accept fin p src b = (b', r, err, src') \<Longrightarrow> length src' \<le> length src"
  by (induction src arbitrary: b) (auto split: if_splits simp: le_Suc_eq)

lemma accept_consumes:
  "accept fin p (c # src) b = (b', r, err, src') \<Longrightarrow> p c \<Longrightarrow> length src' \<le> length src"
  by (simp add: accept_length)

lemma lexsend_next: "snd (lexsend err good) = None \<or> snd (lexsend err good) = Some EatSpace"
  by (simp add: lexsend_def Let_def)

lemma sends_Next: "sends sent x src = Next toks st src' \<longleftrightarrow> toks = sent @ [fst x] \<and> st = snd x \<and> src' = src"
  by (auto simp: sends_def)

lemma ReadRune_length: "ReadRune fin src = (r, err, src') \<Longrightarrow> length src' \<le> length src"
  by (auto simp: ReadRune_def split: list.splits)

lemma ReadRune_cons [simp]: "ReadRune fin (c # src) = (c, None, src)"
  by (simp add: ReadRune_def)

lemma lexNumber_exp_length:
  "lexNumber_exp fin sent b r err src = Next toks st src' \<Longrightarrow>
     length src' \<le> length src \<and> (st = None \<or> st = Some EatSpace)"
  unfolding lexNumber_exp_def
  using lexsend_next
  by (auto simp: sends_Next split: if_splits prod.splits dest!: accept_length ReadRune_length)

lemma lexIdent_length:
  "lexIdent fin src = Next toks st src' \<Longrightarrow>
     length src' \<le> length src \<and> (st = None \<or> st = Some EatSpace) \<and>
     (src \<noteq> [] \<and> isIdentRune (hd src) \<longrightarrow> length src' < length src)"
  unfolding lexIdent_def using lexsend_next
  by (cases src) (auto simp: sends_Next split: prod.splits if_splits dest!: accept_length)

lemma lexOp_length:
  "lexOp fin src = Next toks st src' \<Longrightarrow>
     length src' \<le> length src \<and> (st = None \<or> st = Some EatSpace) \<and>
     (src \<noteq> [] \<and> isOpRune (hd src) \<longrightarrow> length src' < length src)"
  unfolding lexOp_def using lexsend_next
  by (cases src) (auto simp: sends_Next split: prod.splits if_splits dest!: accept_length)

lemma lexNumber_length:
  "lexNumber fin src = Next toks st src' \<Longrightarrow>
     length src' \<le> length src \<and> (st = None \<or> st = Some EatSpace)"
  unfolding lexNumber_def using lexsend_next
  by (auto simp: sends_Next split: if_splits prod.splits dest!: accept_length ReadRune_length lexNumber_exp_length)

lemma lexNumber_consumes:
  "lexNumber fin (c # src) = Next toks st src' \<Longrightarrow> isDigit c \<or> c = CHR ''.'' \<Longrightarrow>
     length src' \<le> length src"
  unfolding lexNumber_def
  by (auto simp: sends_Next isDigit_def split: if_splits prod.splits dest!: accept_length ReadRune_length lexNumber_exp_length)

lemma triquoteLoop_length:
  "triquoteLoop fin b src = Next toks st src' \<Longrightarrow>
     length src' \<le> length src \<and> (st = None \<or> st = Some EatSpace)"
  by (induction src arbitrary: b)
     (auto simp: sends_Next lexsend_def le_Suc_eq split: if_splits)

lemma monoquoteLoop_length:
  "monoquoteLoop fin b src = Next toks st src' \<Longrightarrow>
     length src' \<le> length src \<and> (st = None \<or> st = Some EatSpace)"
  by (induction src arbitrary: b)
     (auto simp: sends_Next lexsend_def le_Suc_eq split: if_splits)

lemma lexString_length:
  "lexString fin src = Next toks st src' \<Longrightarrow>
     length src' \<le> length src \<and> (st = None \<or> st = Some EatSpace) \<and>
     (src \<noteq> [] \<longrightarrow> length src' < length src)"
  unfolding lexString_def lexTriquote_def lexMonoquote_def Read_def
  by (cases src) (auto split: if_splits dest!: triquoteLoop_length monoquoteLoop_length)

text \<open>What \<^verbatim>\<open>eatSpace\<close> has seen at the front of the input when it hands over to a state.\<close>

fun starts :: "lexFn \<Rightarrow> string \<Rightarrow> bool" where
  "starts EatSpace src = False"
| "starts LexIdent src = (src \<noteq> [] \<and> isIdentRune (hd src))"
| "starts LexOp src = (src \<noteq> [] \<and> isOpRune (hd src))"
| "starts LexNumber src = (src \<noteq> [] \<and> (isDigit (hd src) \<or> hd src = CHR ''.''))"
| "starts LexString src = (src \<noteq> [])"

lemma eatSpace_next:
  "eatSpace fin src = Next toks st src' \<Longrightarrow>
     length src' \<le> length src \<and>
     (st = Some EatSpace \<longrightarrow> length src' < length src) \<and>
     (\<forall>s. st = Some s \<and> s \<noteq> EatSpace \<longrightarrow> starts s src')"
  by (induction src)
     (auto simp: isIdentRune_def isDigit_def Let_def split: if_splits)

lemma run_next:
  assumes "run s fin src = Next toks st src'" "s \<noteq> EatSpace"
  shows "length src' \<le> length src \<and> (st = None \<or> st = Some EatSpace) \<and>
         (starts s src \<longrightarrow> length src' < length src)"
proof (cases s)
  case EatSpace with assms show ?thesis by simp
next
  case LexIdent with assms lexIdent_length[of fin src toks st src'] show ?thesis by simp
next
  case LexOp with assms lexOp_length[of fin src toks st src'] show ?thesis by simp
next
  case LexNumber
  with assms have n: "lexNumber fin src = Next toks st src'" by simp
  show ?thesis
  proof (cases src)
    case Nil with n lexNumber_length[OF n] LexNumber show ?thesis by simp
  next
    case (Cons c rest)
    with n lexNumber_length[OF n] LexNumber lexNumber_consumes[of fin c rest toks st src']
    show ?thesis by auto
  qed
next
  case LexString with assms lexString_length[of fin src toks st src'] show ?thesis by simp
qed

text \<open>The size of a lexer configuration: it goes down with every call of a state function.\<close>

definition lexSize :: "lexFn option \<Rightarrow> string \<Rightarrow> nat" where
  "lexSize st src =
     3 * length src +
     (case st of None \<Rightarrow> 0 | Some s \<Rightarrow> if s = EatSpace then 1 else if starts s src then 0 else 2)"

lemma run_decreases:
  assumes "run s fin src = Next toks st src'"
  shows "lexSize st src' < lexSize (Some s) src"
proof (cases "s = EatSpace")
  case True
  with assms have "eatSpace fin src = Next toks st src'" by simp
  from eatSpace_next[OF this] True show ?thesis
    by (cases st) (auto simp: lexSize_def)
next
  case False
  from run_next[OF assms False] False show ?thesis
    by (auto simp: lexSize_def)
qed

datatype lexResult = Closed "token list" | Panicked "token list" char

function lexLoop :: "error \<Rightarrow> lexFn option \<Rightarrow> string \<Rightarrow> token list \<Rightarrow> lexResult" where
  "lexLoop fin None src sent = Closed sent"
| "lexLoop fin (Some state) src sent =
     (case run state fin src of
        Panic r \<Rightarrow> Panicked sent r
      | Next toks state' src' \<Rightarrow> lexLoop fin state' src' (sent @ toks))"
  by pat_completeness auto
termination
  by (relation "measure (\<lambda>(fin, st, src, sent). lexSize st src)") (auto simp: run_decreases)

definition lex :: "error \<Rightarrow> string \<Rightarrow> lexResult" where
  "lex fin src = lexLoop fin (Some EatSpace) src []"



section \<open>The parser\<close>

subsection \<open>Data the parser builds\<close>

text \<open>
  Modelled from the spec: the declarations of \<^verbatim>\<open>Message\<close>, \<^verbatim>\<open>Symbol\<close>, \<^verbatim>\<open>Object\<close>,
  \<^verbatim>\<open>Interface\<close>, \<^verbatim>\<open>Stop\<close> and \<^verbatim>\<open>VM\<close> are absent from src. The fields are those the
  sources read and write; section 3 gives the message as a symbol (none, identifier, number,
  string or separator, with the decoded value), a list of argument chains, the links to its
  neighbours and a memoized value, and the object as a slot map and a list of protos.

  A chain of messages is the list of its nodes, in the order of the \<^verbatim>\<open>Next\<close> links; a
  \<^verbatim>\<open>*Message\<close> is such a list and \<^verbatim>\<open>nil\<close> is \<open>None\<close>. While the parser builds a chain its
  cursor \<^verbatim>\<open>m\<close> is the last node of the list, \<^verbatim>\<open>m.Prev\<close> is the node before it, and the
  first node has no \<^verbatim>\<open>Prev\<close>. A Go map is a reference: the \<^verbatim>\<open>Slots\<close> of an object is the
  address of a map in the heap, or \<open>None\<close> for the nil map. An \<^verbatim>\<open>Interface\<close> value is
  \<^verbatim>\<open>nil\<close>, a pointer to an object, block or call in the heap, a number or a string (the
  values \<^verbatim>\<open>vm.NewNumber\<close> and \<^verbatim>\<open>vm.NewString\<close> make, both absent from src), a Go function
  wrapped by \<^verbatim>\<open>vm.NewCFunction\<close> (absent from src), a message chain, or a \<^verbatim>\<open>Stop\<close> with
  its \<^verbatim>\<open>Result\<close>. The \<^verbatim>\<open>float64\<close> of a literal is kept as the exact rational it is nearest
  to, or an infinity.
\<close>

datatype float64 = Finite rat | PosInf | NegInf

datatype SymKind = NoSym | SemiSym | IdentSym | NumSym | StringSym

record Symbol =
  Kind :: SymKind
  Text :: string
  Num :: float64
  String :: string

datatype gofunc = BlockAsString_func | BlockCall_func

datatype Interface =
    GoNil
  | Ptr nat
  | NumberP float64
  | StringP string
  | CFunctionP gofunc string
  | MessageP "Message list"
  | Stop Interface
and Message =
  Message (Slots: "nat option") (Protos: "Interface list") (Symbol: Symbol)
    (Args: "Message list option list") (Memo: Interface)

record VM =
  BaseObject :: Interface
  Nil :: Interface
  DefaultSlots :: "string \<rightharpoonup> nat"

record strconv =
  ParseFloat :: "string \<Rightarrow> float64 \<times> error option"
  ParseInt :: "string \<Rightarrow> int \<times> error option"
  Unquote :: "string \<Rightarrow> string \<times> error option"

datatype panic =
    LexPanic char
  | NilDereference
  | IndexOutOfRange
  | SliceBoundsOutOfRange
  | TypeAssertion
  | MakeSliceLenOutOfRange
  | NilMapAssignment

datatype 'a outcome = Crash panic | OutOfFuel | Return 'a

type_synonym tokenChan = "token list \<times> char option"

definition recv :: "tokenChan \<Rightarrow> (token \<times> tokenChan) option outcome" where
  "recv ch =
     (case ch of
        (tok # rest, fate) \<Rightarrow> Return (Some (tok, (rest, fate)))
      | ([], None) \<Rightarrow> Return None
      | ([], Some r) \<Rightarrow> Crash (LexPanic r))"

definition zeroSymbol :: Symbol where
  "zeroSymbol = \<lparr>Kind = NoSym, Text = [], Num = Finite 0, String = []\<rparr>"

definition zeroToken :: token where
  "zeroToken = \<lparr>token.Kind = badToken, Value = [], Err = None\<rparr>"

definition newMessage :: "VM \<Rightarrow> Message" where
  "newMessage vm = Message (DefaultSlots vm ''Message'') [BaseObject vm] zeroSymbol [] GoNil"

definition setSymbol :: "Symbol \<Rightarrow> Message \<Rightarrow> Message" where
  "setSymbol s m = Message (Slots m) (Protos m) s (Args m) (Memo m)"

definition setArgs :: "Message list option list \<Rightarrow> Message \<Rightarrow> Message" where
  "setArgs as m = Message (Slots m) (Protos m) (Symbol m) as (Memo m)"

definition setMemo :: "Interface \<Rightarrow> Message \<Rightarrow> Message" where
  "setMemo v m = Message (Slots m) (Protos m) (Symbol m) (Args m) v"

definition onLast :: "(Message \<Rightarrow> Message) \<Rightarrow> Message list \<Rightarrow> Message list" where
  "onLast f ns = butlast ns @ [f (last ns)]"

definition IsStart :: "Message list \<Rightarrow> bool" where
  "IsStart ns = (butlast ns = [] \<or> Symbol.Kind (Symbol (last (butlast ns))) = SemiSym)"

definition deferred :: "Message list \<Rightarrow> Message list option outcome" where
  "deferred ns =
     (if Symbol.Kind (Symbol (hd ns)) = NoSym then Return None
      else if butlast ns = [] then Crash NilDereference
      else Return (Some (butlast ns)))"

type_synonym parsed = "token \<times> Message list option \<times> error option \<times> tokenChan"

definition return :: "Message list \<Rightarrow> token \<Rightarrow> error option \<Rightarrow> tokenChan \<Rightarrow> parsed outcome" where
  "return ns tok err ch =
     (case deferred ns of
        Crash p \<Rightarrow> Crash p
      | OutOfFuel \<Rightarrow> OutOfFuel
      | Return msg \<Rightarrow> Return (tok, msg, err, ch))"

definition closeErr :: "char option \<Rightarrow> string \<Rightarrow> error option" where
  "closeErr open' v =
     (if open' = Some (CHR ''('') then
        (if v \<noteq> '')'' then Some (Errorf (''expected '' @ [CHR 0x27] @ '')'' @ [CHR 0x27] @ '', got '' @ [CHR 0x27] @ v @ [CHR 0x27])) else None)
      else if open' = Some (CHR ''['') then
        (if v \<noteq> '']'' then Some (Errorf (''expected '' @ [CHR 0x27] @ '']'' @ [CHR 0x27] @ '', got '' @ [CHR 0x27] @ v @ [CHR 0x27])) else None)
      else if open' = Some (CHR ''{'') then
        (if v \<noteq> ''}'' then Some (Errorf (''expected '' @ [CHR 0x27] @ ''}'' @ [CHR 0x27] @ '', got '' @ [CHR 0x27] @ v @ [CHR 0x27])) else None)
      else Some (Errorf (''unexpected '' @ [CHR 0x27] @ v @ [CHR 0x27])))"

definition argsCheck :: "Message list option list \<Rightarrow> error option \<Rightarrow> Message list option list \<times> error option" where
  "argsCheck as err =
     (if length as = 1 then (if as ! 0 = None then ([], err) else (as, err))
      else if length as > 1 then
        (if as ! (length as - 1) = None then (as, Some (Errorf ''empty argument'')) else (as, err))
      else (as, err))"

text \<open>
  What one token does to the chain under construction, before the loop goes on: the body of
  the \<^verbatim>\<open>switch tok.Kind\<close> of \<^verbatim>\<open>parseRecurse\<close>.
\<close>

datatype action =
    Ret "error option"
  | Fail panic
  | Skip
  | Advance "Message list"
  | Bracket "Message list"

definition literal :: "Symbol \<Rightarrow> Interface \<Rightarrow> Message list \<Rightarrow> Message list" where
  "literal s v ns = onLast (setMemo v \<circ> setSymbol s) ns"

definition onToken :: "strconv \<Rightarrow> char option \<Rightarrow> Message list \<Rightarrow> token \<Rightarrow> action" where
  "onToken lib open' ns tok =
     (case token.Kind tok of
        badToken \<Rightarrow> Ret (Err tok)
      | semiToken \<Rightarrow>
          if IsStart ns then Skip
          else Advance (onLast (setSymbol (zeroSymbol\<lparr>Kind := SemiSym, Text := Value tok\<rparr>)) ns)
      | identToken \<Rightarrow>
          Advance (onLast (setSymbol (zeroSymbol\<lparr>Kind := IdentSym, Text := Value tok\<rparr>)) ns)
      | openToken \<Rightarrow>
          Bracket
            (if Value tok = ''('' then
               (if IsStart ns then onLast (setSymbol (zeroSymbol\<lparr>Kind := IdentSym\<rparr>)) ns
                else butlast ns)
             else if Value tok = ''['' then
               onLast (setSymbol (zeroSymbol\<lparr>Kind := IdentSym, Text := ''squareBrackets''\<rparr>)) ns
             else if Value tok = ''{'' then
               onLast (setSymbol (zeroSymbol\<lparr>Kind := IdentSym, Text := ''curlyBrackets''\<rparr>)) ns
             else ns)
      | closeToken \<Rightarrow> Ret (closeErr open' (Value tok))
      | commaToken \<Rightarrow>
          Ret (if open' = None
               then Some (Errorf (''bro you can'' @ [CHR 0x27] @ ''t just comma like that''))
               else None)
      | numberToken \<Rightarrow>
          (case ParseFloat lib (Value tok) of (f, err) \<Rightarrow>
             (case err of
                None \<Rightarrow> Advance (literal (zeroSymbol\<lparr>Kind := NumSym, Num := f\<rparr>) (NumberP f) ns)
              | Some (NumError e) \<Rightarrow>
                  if e = ErrRange
                  then Advance (literal (zeroSymbol\<lparr>Kind := NumSym, Num := f\<rparr>) (NumberP f) ns)
                  else Ret err
              | Some _ \<Rightarrow> Fail TypeAssertion))
      | hexToken \<Rightarrow>
          (case ParseInt lib (Value tok) of (x, err) \<Rightarrow>
             (case err of
                None \<Rightarrow>
                  Advance (literal (zeroSymbol\<lparr>Kind := NumSym, Num := Finite (of_int x)\<rparr>)
                             (NumberP (Finite (of_int x))) ns)
              | Some (NumError e) \<Rightarrow>
                  if e = ErrRange
                  then (if Value tok = [] then Fail IndexOutOfRange
                        else (let f = (if Value tok ! 0 = CHR ''-'' then NegInf else PosInf)
                              in Advance (literal (zeroSymbol\<lparr>Kind := NumSym, Num := f\<rparr>) (NumberP f) ns)))
                  else Ret err
              | Some _ \<Rightarrow> Fail TypeAssertion))
      | stringToken \<Rightarrow>
          (case Unquote lib (Value tok) of (s, err) \<Rightarrow>
             if err \<noteq> None then Ret err
             else Advance (literal (zeroSymbol\<lparr>Kind := StringSym, String := s\<rparr>) (StringP s) ns))
      | triquoteToken \<Rightarrow>
          if length (Value tok) < 6 then Fail SliceBoundsOutOfRange
          else (let s = take (length (Value tok) - 6) (drop 3 (Value tok))
                in Advance (literal (zeroSymbol\<lparr>Kind := StringSym, String := s\<rparr>) (StringP s) ns)))"

text \<open>
  \<^verbatim>\<open>parseRecurse\<close> with its two loops: \<open>parseLoop\<close> is \<^verbatim>\<open>for tok = range tokens\<close>, with
  the chain built so far and the token received last; \<open>argLoop\<close> is the inner \<^verbatim>\<open>for\<close>
  over the arguments of a bracket, up to the code after it. The first argument bounds the
  number of nested calls.
\<close>

function (sequential) parseRecurse :: "nat \<Rightarrow> strconv \<Rightarrow> VM \<Rightarrow> char option \<Rightarrow> tokenChan \<Rightarrow> parsed outcome"
and parseLoop :: "nat \<Rightarrow> strconv \<Rightarrow> VM \<Rightarrow> char option \<Rightarrow> Message list \<Rightarrow> token \<Rightarrow> tokenChan \<Rightarrow> parsed outcome"
and argLoop :: "nat \<Rightarrow> strconv \<Rightarrow> VM \<Rightarrow> char option \<Rightarrow> Message list \<Rightarrow> token \<Rightarrow> tokenChan \<Rightarrow> parsed outcome"
where
  "parseRecurse 0 lib vm open' ch = OutOfFuel"
| "parseRecurse (Suc n) lib vm open' ch = parseLoop n lib vm open' [newMessage vm] zeroToken ch"
| "parseLoop 0 lib vm open' ns tok0 ch = OutOfFuel"
| "parseLoop (Suc n) lib vm open' ns tok0 ch =
     (case recv ch of
        Crash p \<Rightarrow> Crash p
      | OutOfFuel \<Rightarrow> OutOfFuel
      | Return None \<Rightarrow> return ns tok0 None ch
      | Return (Some (tok, ch')) \<Rightarrow>
          (case onToken lib open' ns tok of
             Ret err \<Rightarrow> return ns tok err ch'
           | Fail p \<Rightarrow> Crash p
           | Skip \<Rightarrow> parseLoop n lib vm open' ns tok ch'
           | Advance ms \<Rightarrow> parseLoop n lib vm open' (ms @ [newMessage vm]) tok ch'
           | Bracket ms \<Rightarrow> argLoop n lib vm open' ms tok ch'))"
| "argLoop 0 lib vm open' ns tok ch = OutOfFuel"
| "argLoop (Suc n) lib vm open' ns tok ch =
     (if Value tok = [] then Crash IndexOutOfRange
      else
       (case parseRecurse n lib vm (Some (Value tok ! 0)) ch of
          Crash p \<Rightarrow> Crash p
        | OutOfFuel \<Rightarrow> OutOfFuel
        | Return (atok, amsg, err, ch') \<Rightarrow>
            if token.Kind atok = commaToken then
              (let err1 = (if amsg = None then Some (Errorf ''empty argument'') else err) in
               if err1 \<noteq> None then return ns atok err1 ch'
               else argLoop n lib vm open' (onLast (\<lambda>m. setArgs (Args m @ [amsg]) m) ns) tok ch')
            else
              (case argsCheck (Args (last ns)) err of (as, err1) \<Rightarrow>
                 if err1 \<noteq> None then return (onLast (setArgs as) ns) atok err1 ch'
                 else parseLoop n lib vm open'
                        (onLast (setArgs (as @ [amsg])) ns @ [newMessage vm]) tok ch')))"
  by pat_completeness auto
termination
  by (relation "measure (\<lambda>x. case x of Inl (n, _) \<Rightarrow> n | Inr (Inl (n, _)) \<Rightarrow> n | Inr (Inr (n, _)) \<Rightarrow> n)") auto

subsection \<open>The entry point\<close>

text \<open>
  The lexer runs as a goroutine that feeds an unbuffered channel, so the parser receives the
  tokens in the order the lexer sends them, and the lexer goes on only when the token it is
  sending has been received. A panic of the lexer goroutine ends the process. The model
  hands the parser the tokens the lexer can send and what comes after them (the channel is
  closed, or the lexer panics on a rune). A parser waiting for the token after the last one
  sent never gets an answer when the lexer panics; and when the parser has returned after
  receiving the last token the lexer can send, the lexer still runs on into its panic, which
  ends the process all the same. When the parser returns with a token not yet received, the
  lexer stays blocked on sending that token and reaches neither its panic nor the end of the
  input.
\<close>

definition chanOf :: "lexResult \<Rightarrow> tokenChan" where
  "chanOf res = (case res of Closed toks \<Rightarrow> (toks, None) | Panicked toks r \<Rightarrow> (toks, Some r))"

definition Parse :: "strconv \<Rightarrow> VM \<Rightarrow> error \<Rightarrow> string \<Rightarrow> (Message list option \<times> error option) outcome" where
  "Parse lib vm fin source =
     (let ch = chanOf (lex fin source) in
      case parseRecurse (3 * length (fst ch) + 2) lib vm None ch of
        Crash p \<Rightarrow> Crash p
      | OutOfFuel \<Rightarrow> OutOfFuel
      | Return (_, msg, err, left) \<Rightarrow>
          (case left of
             ([], Some r) \<Rightarrow> Crash (LexPanic r)
           | _ \<Rightarrow> Return (msg, err)))"

subsection \<open>The library functions the parser calls\<close>

text \<open>
  \<^verbatim>\<open>strconv.ParseFloat\<close>, \<^verbatim>\<open>strconv.ParseInt\<close> (base 0, 64 bits) and \<^verbatim>\<open>strconv.Unquote\<close>
  belong to the Go library, not to the program: the parser takes them as the parameter \<open>lib\<close>.
  For running the parser on a concrete text, \<open>goStrconv\<close> follows the library's documentation
  on the texts the lexer can hand over: decimal floating-point literals (the value is the
  exact rational \<open>m * 10^e\<close>, which Go rounds to the nearest \<^verbatim>\<open>float64\<close>; a magnitude of
  \<open>2^1024 - 2^970\<close> or more is out of range), integers with a base prefix (no underscores),
  and quoted strings without escape sequences.
\<close>

definition stripSign :: "string \<Rightarrow> bool \<times> string" where
  "stripSign s =
     (case s of
        [] \<Rightarrow> (False, [])
      | c # rest \<Rightarrow>
          if c = CHR ''+'' then (False, rest) else if c = CHR ''-'' then (True, rest) else (False, s))"

definition digitVal :: "char \<Rightarrow> int" where
  "digitVal c =
     (if CHR ''a'' \<le> c \<and> c \<le> CHR ''f'' then int (of_char c) - 87
      else if CHR ''A'' \<le> c \<and> c \<le> CHR ''F'' then int (of_char c) - 55
      else int (of_char c) - 48)"

fun digitsVal :: "int \<Rightarrow> string \<Rightarrow> int \<Rightarrow> int" where
  "digitsVal base [] acc = acc"
| "digitsVal base (c # cs) acc = digitsVal base cs (base * acc + digitVal c)"

definition exponent :: "string \<Rightarrow> int option" where
  "exponent s =
     (if s = [] then Some 0
      else if hd s = CHR ''e'' \<or> hd s = CHR ''E'' then
        (case stripSign (tl s) of (eneg, ds) \<Rightarrow>
           if ds \<noteq> [] \<and> list_all isDigit ds
           then Some (if eneg then - digitsVal 10 ds 0 else digitsVal 10 ds 0)
           else None)
      else None)"

definition decimal :: "int \<Rightarrow> int \<Rightarrow> rat" where
  "decimal m e = (if 0 \<le> e then of_int (m * 10 ^ nat e) else of_int m / of_int (10 ^ nat (- e)))"

definition outOfRange :: "int \<Rightarrow> int \<Rightarrow> bool" where
  "outOfRange m e =
     (if 0 \<le> e then 2 ^ 1024 - 2 ^ 970 \<le> m * 10 ^ nat e
      else (2 ^ 1024 - 2 ^ 970) * 10 ^ nat (- e) \<le> m)"

definition goParseFloat :: "string \<Rightarrow> float64 \<times> error option" where
  "goParseFloat s =
     (case stripSign s of (neg, s1) \<Rightarrow>
        let ip = takeWhile isDigit s1;
            s2 = dropWhile isDigit s1;
            sawdot = (s2 \<noteq> [] \<and> hd s2 = CHR ''.'');
            fp = (if sawdot then takeWhile isDigit (tl s2) else []);
            s3 = (if sawdot then dropWhile isDigit (tl s2) else s2)
        in if ip = [] \<and> fp = [] then (Finite 0, Some (NumError ErrSyntax))
           else
             (case exponent s3 of
                None \<Rightarrow> (Finite 0, Some (NumError ErrSyntax))
              | Some e \<Rightarrow>
                  let m = digitsVal 10 (ip @ fp) 0; x = e - int (length fp)
                  in if outOfRange m x
                     then (if neg then NegInf else PosInf, Some (NumError ErrRange))
                     else (Finite (if neg then - decimal m x else decimal m x), None)))"

definition basePrefix :: "string \<Rightarrow> int \<times> string" where
  "basePrefix s =
     (if s \<noteq> [] \<and> hd s = CHR ''0'' then
        (if 3 \<le> length s \<and> (s ! 1 = CHR ''b'' \<or> s ! 1 = CHR ''B'') then (2, drop 2 s)
         else if 3 \<le> length s \<and> (s ! 1 = CHR ''o'' \<or> s ! 1 = CHR ''O'') then (8, drop 2 s)
         else if 3 \<le> length s \<and> (s ! 1 = CHR ''x'' \<or> s ! 1 = CHR ''X'') then (16, drop 2 s)
         else (8, tl s))
      else (10, s))"

definition goParseInt :: "string \<Rightarrow> int \<times> error option" where
  "goParseInt s =
     (case stripSign s of (neg, s1) \<Rightarrow>
        if s1 = [] then (0, Some (NumError ErrSyntax))
        else
          (case basePrefix s1 of (base, ds) \<Rightarrow>
             if \<not> list_all (\<lambda>c. isHexDigit c \<and> digitVal c < base) ds
             then (0, Some (NumError ErrSyntax))
             else
               (let un = digitsVal base ds 0 in
                if \<not> neg \<and> 2 ^ 63 \<le> un then (2 ^ 63 - 1, Some (NumError ErrRange))
                else if neg \<and> 2 ^ 63 < un then (- (2 ^ 63), Some (NumError ErrRange))
                else (if neg then - un else un, None))))"

definition goUnquote :: "string \<Rightarrow> string \<times> error option" where
  "goUnquote s =
     (if 2 \<le> length s \<and> hd s = CHR 0x22 \<and> last s = CHR 0x22 \<and>
         list_all (\<lambda>c. c \<noteq> CHR 0x5C \<and> c \<noteq> CHR 0x22 \<and> c \<noteq> CHR 0x0A) (butlast (tl s))
      then (butlast (tl s), None)
      else ([], Some UnquoteErrSyntax))"

definition goStrconv :: strconv where
  "goStrconv = \<lparr>ParseFloat = goParseFloat, ParseInt = goParseInt, Unquote = goUnquote\<rparr>"

definition vm0 :: VM where
  "vm0 = \<lparr>BaseObject = Ptr 0, Nil = Ptr 1, DefaultSlots = [''Message'' \<mapsto> 7, ''Block'' \<mapsto> 8]\<rparr>"



section \<open>Blocks (block.go)\<close>

subsection \<open>Objects in the heap\<close>

record Object =
  Slots :: "nat option"
  Protos :: "Interface list"

record Block = Object +
  Message :: "Message list option"
  Self :: Interface
  ArgNames :: "string list"
  Activatable :: bool

record Call =
  Sender :: Interface
  Target :: Interface
  Activated :: Interface
  Message :: Message

datatype cell = ObjectCell Object | BlockCell Block | CallCell Call

record Heap =
  cells :: "nat \<rightharpoonup> cell"
  slotMaps :: "nat \<rightharpoonup> (string \<rightharpoonup> Interface)"
  fresh :: nat

definition alloc :: "cell \<Rightarrow> Heap \<Rightarrow> Interface \<times> Heap" where
  "alloc c h = (Ptr (fresh h), h\<lparr>cells := (cells h)(fresh h \<mapsto> c), fresh := Suc (fresh h)\<rparr>)"

definition makeSlots :: "(string \<rightharpoonup> Interface) \<Rightarrow> Heap \<Rightarrow> nat \<times> Heap" where
  "makeSlots m h = (fresh h, h\<lparr>slotMaps := (slotMaps h)(fresh h \<mapsto> m), fresh := Suc (fresh h)\<rparr>)"

definition mapAssign :: "Heap \<Rightarrow> nat option \<Rightarrow> string \<Rightarrow> Interface \<Rightarrow> Heap outcome" where
  "mapAssign h slots name v =
     (case slots of
        None \<Rightarrow> Crash NilMapAssignment
      | Some a \<Rightarrow>
          Return (h\<lparr>slotMaps := (slotMaps h)
                    (a \<mapsto> (case slotMaps h a of None \<Rightarrow> Map.empty | Some m \<Rightarrow> m)(name \<mapsto> v))\<rparr>))"

definition mapIndex :: "Heap \<Rightarrow> nat option \<Rightarrow> string \<Rightarrow> Interface option" where
  "mapIndex h slots name =
     (case slots of
        None \<Rightarrow> None
      | Some a \<Rightarrow> (case slotMaps h a of None \<Rightarrow> None | Some m \<Rightarrow> m name))"

definition slotsOf :: "Heap \<Rightarrow> Interface \<Rightarrow> nat option outcome" where
  "slotsOf h x =
     (case x of
        Ptr a \<Rightarrow>
          (case cells h a of
             Some (ObjectCell ob) \<Rightarrow> Return (Object.Slots ob)
           | Some (BlockCell b) \<Rightarrow> Return (Object.Slots b)
           | _ \<Rightarrow> Crash NilDereference)
      | MessageP (m # _) \<Rightarrow> Return (Message.Slots m)
      | _ \<Rightarrow> Crash NilDereference)"

text \<open>
  Modelled from the spec: \<^verbatim>\<open>SetSlot\<close> is absent from src. Section 3: "Objects may be mutated
  in place (slot addition/overwrite) by any holder with a reference", and section 8:
  overwriting a slot on an object leaves the slot of its proto unchanged. \<open>SetSlot\<close> writes
  the value under the name into the object's own slot map.
\<close>

definition SetSlot :: "Heap \<Rightarrow> Interface \<Rightarrow> string \<Rightarrow> Interface \<Rightarrow> Heap outcome" where
  "SetSlot h ob slot v =
     (case slotsOf h ob of
        Crash p \<Rightarrow> Crash p
      | OutOfFuel \<Rightarrow> OutOfFuel
      | Return slots \<Rightarrow> mapAssign h slots slot v)"

text \<open>
  Modelled from the spec: \<^verbatim>\<open>Message.ArgAt\<close> is absent from src. Section 4.3 speaks of "the
  corresponding argument expression from the call-site message" and of "any parameter past
  the number of supplied arguments", and \<^verbatim>\<open>reallyActivate\<close> tests its result against
  \<^verbatim>\<open>nil\<close>: \<open>ArgAt\<close> is the argument chain at the index, \<^verbatim>\<open>nil\<close> when there is none.
\<close>

definition ArgAt :: "Message \<Rightarrow> int \<Rightarrow> Message list option" where
  "ArgAt msg n = (if 0 \<le> n \<and> n < int (length (Args msg)) then Args msg ! nat n else None)"

text \<open>
  Modelled from the spec: \<^verbatim>\<open>VM.NewCall\<close> and the type \<^verbatim>\<open>Call\<close> are absent from src.
  Section 3: the activation record \<^verbatim>\<open>{Sender: locals at call site, Target: receiver object,
  Activated: the block/message being run, Message: the call-site message node}\<close>, "created
  fresh per activation".
\<close>

definition NewCall :: "Heap \<Rightarrow> Interface \<Rightarrow> Interface \<Rightarrow> Message \<Rightarrow> Interface \<Rightarrow> Interface \<times> Heap" where
  "NewCall h sender actor msg target =
     alloc (CallCell \<lparr>Sender = sender, Target = target, Activated = actor, Message = msg\<rparr>) h"

text \<open>
  \<^verbatim>\<open>Message.Eval\<close> is absent from src: the functions that call it take the evaluator as a
  parameter, given the heap, the chain and the locals. It returns a value and the heap it
  leaves, or panics, or does not come back (\<open>OutOfFuel\<close>).
\<close>

type_synonym eval = "Heap \<Rightarrow> Message list option \<Rightarrow> Interface \<Rightarrow> (Interface \<times> Heap) outcome"

text \<open>
  \<^verbatim>\<open>reallyActivate\<close> up to the evaluation of the body. \<open>newLocals\<close> is its first line: the
  fresh locals object, with an empty slot map of its own and the base object as only proto.
  \<open>bindArgs\<close> is the loop over \<^verbatim>\<open>b.ArgNames\<close>, and \<open>blockLocals\<close> is all of it: the fresh
  locals, the loop, the scope, the call record and the slots \<open>self\<close> and \<open>call\<close>.
\<close>

definition newLocals :: "VM \<Rightarrow> Heap \<Rightarrow> Interface \<times> Heap" where
  "newLocals vm h =
     (case makeSlots Map.empty h of (slots, h1) \<Rightarrow>
        alloc (ObjectCell \<lparr>Slots = Some slots, Protos = [BaseObject vm]\<rparr>) h1)"

fun bindArgs :: "VM \<Rightarrow> Heap \<Rightarrow> Interface \<Rightarrow> Message \<Rightarrow> nat \<Rightarrow> string list \<Rightarrow> Heap outcome" where
  "bindArgs vm h blkLocals msg i [] = Return h"
| "bindArgs vm h blkLocals msg i (arg # rest) =
     (case SetSlot h blkLocals arg
             (case ArgAt msg (int i) of Some x \<Rightarrow> MessageP x | None \<Rightarrow> Nil vm) of
        Crash p \<Rightarrow> Crash p
      | OutOfFuel \<Rightarrow> OutOfFuel
      | Return h' \<Rightarrow> bindArgs vm h' blkLocals msg (Suc i) rest)"

definition blockLocals :: "VM \<Rightarrow> Heap \<Rightarrow> nat \<Rightarrow> Block \<Rightarrow> Interface \<Rightarrow> Interface \<Rightarrow> Message \<Rightarrow> (Interface \<times> Heap) outcome" where
  "blockLocals vm h bref b target locals msg =
     (case newLocals vm h of (blkLocals, h2) \<Rightarrow>
      case bindArgs vm h2 blkLocals msg 0 (ArgNames b) of
        Crash p \<Rightarrow> Crash p
      | OutOfFuel \<Rightarrow> OutOfFuel
      | Return h3 \<Rightarrow>
          (let scope = (if Self b = GoNil then target else Self b) in
           case NewCall h3 locals (Ptr bref) msg target of (call, h4) \<Rightarrow>
           case SetSlot h4 blkLocals ''self'' scope of
             Crash p \<Rightarrow> Crash p
           | OutOfFuel \<Rightarrow> OutOfFuel
           | Return h5 \<Rightarrow>
               (case SetSlot h5 blkLocals ''call'' call of
                  Crash p \<Rightarrow> Crash p
                | OutOfFuel \<Rightarrow> OutOfFuel
                | Return h6 \<Rightarrow> Return (blkLocals, h6))))"

definition unwrap :: "Interface \<Rightarrow> Interface" where
  "unwrap result = (case result of Stop r \<Rightarrow> r | _ \<Rightarrow> result)"

definition unwrapResult :: "(Interface \<times> Heap) outcome \<Rightarrow> (Interface \<times> Heap) outcome" where
  "unwrapResult res =
     (case res of
        Crash p \<Rightarrow> Crash p
      | OutOfFuel \<Rightarrow> OutOfFuel
      | Return (result, h) \<Rightarrow> Return (unwrap result, h))"

definition reallyActivate :: "eval \<Rightarrow> VM \<Rightarrow> Heap \<Rightarrow> nat \<Rightarrow> Interface \<Rightarrow> Interface \<Rightarrow> Message \<Rightarrow> (Interface \<times> Heap) outcome" where
  "reallyActivate Eval vm h bref target locals msg =
     (case cells h bref of
        Some (BlockCell b) \<Rightarrow>
          (case blockLocals vm h bref b target locals msg of
             Crash p \<Rightarrow> Crash p
           | OutOfFuel \<Rightarrow> OutOfFuel
           | Return (blkLocals, h1) \<Rightarrow> unwrapResult (Eval h1 (Block.Message b) blkLocals))
      | _ \<Rightarrow> Crash NilDereference)"

definition Activate :: "eval \<Rightarrow> VM \<Rightarrow> Heap \<Rightarrow> nat \<Rightarrow> Interface \<Rightarrow> Interface \<Rightarrow> Message \<Rightarrow> (Interface \<times> Heap) outcome" where
  "Activate Eval vm h bref target locals msg =
     (case cells h bref of
        Some (BlockCell b) \<Rightarrow>
          if \<not> Activatable b then Return (Ptr bref, h)
          else reallyActivate Eval vm h bref target locals msg
      | _ \<Rightarrow> Crash NilDereference)"

definition initBlock :: "VM \<Rightarrow> Heap \<Rightarrow> VM \<times> Heap" where
  "initBlock vm h =
     (case makeSlots [''asString'' \<mapsto> CFunctionP BlockAsString_func ''BlockAsString()'',
                      ''call'' \<mapsto> CFunctionP BlockCall_func ''BlockCall(...)''] h of
        (slots, h') \<Rightarrow> (vm\<lparr>DefaultSlots := (DefaultSlots vm)(''Block'' \<mapsto> slots)\<rparr>, h'))"

text \<open>
  \<^verbatim>\<open>Message.Name\<close> is absent from src: \<^verbatim>\<open>ObjectBlock\<close> takes it as the parameter \<open>Name\<close>.
  With no argument at all, \<^verbatim>\<open>make([]string, len(msg.Args)-1)\<close> panics.
\<close>

definition ObjectBlock :: "(Message list option \<Rightarrow> string) \<Rightarrow> VM \<Rightarrow> Heap \<Rightarrow> Interface \<Rightarrow> Interface \<Rightarrow> Message \<Rightarrow> (Interface \<times> Heap) outcome" where
  "ObjectBlock Name vm h target locals msg =
     (if int (length (Args msg)) - 1 < 0 then Crash MakeSliceLenOutOfRange
      else Return (alloc (BlockCell
             \<lparr>Slots = DefaultSlots vm ''Block'', Protos = [BaseObject vm],
              Block.Message = ArgAt msg (int (length (Args msg)) - 1),
              Self = locals,
              ArgNames = map Name (take (length (Args msg) - 1) (Args msg)),
              Activatable = False\<rparr>) h))"

definition ObjectMethod :: "(Message list option \<Rightarrow> string) \<Rightarrow> VM \<Rightarrow> Heap \<Rightarrow> Interface \<Rightarrow> Interface \<Rightarrow> Message \<Rightarrow> (Interface \<times> Heap) outcome" where
  "ObjectMethod Name vm h target locals msg =
     (case ObjectBlock Name vm h target locals msg of
        Crash p \<Rightarrow> Crash p
      | OutOfFuel \<Rightarrow> OutOfFuel
      | Return (blk, h1) \<Rightarrow>
          (case blk of
             Ptr a \<Rightarrow>
               (case cells h1 a of
                  Some (BlockCell b) \<Rightarrow>
                    Return (blk, h1\<lparr>cells := (cells h1)(a \<mapsto> BlockCell (b\<lparr>Activatable := True, Self := GoNil\<rparr>))\<rparr>)
                | _ \<Rightarrow> Crash TypeAssertion)
           | _ \<Rightarrow> Crash TypeAssertion))"

definition BlockCall :: "eval \<Rightarrow> VM \<Rightarrow> Heap \<Rightarrow> Interface \<Rightarrow> Interface \<Rightarrow> Message \<Rightarrow> (Interface \<times> Heap) outcome" where
  "BlockCall Eval vm h target locals msg =
     (case target of
        Ptr a \<Rightarrow>
          (case cells h a of
             Some (BlockCell b) \<Rightarrow> reallyActivate Eval vm h a target locals msg
           | _ \<Rightarrow> Crash TypeAssertion)
      | _ \<Rightarrow> Crash TypeAssertion)"

definition DoMessage :: "eval \<Rightarrow> VM \<Rightarrow> Heap \<Rightarrow> Message list option \<Rightarrow> Interface \<Rightarrow> (Interface \<times> Heap) outcome" where
  "DoMessage Eval vm h msg locals = unwrapResult (Eval h msg locals)"

section \<open>Values used in the statements\<close>

text \<open>Tokens and message nodes, as the lexer and the parser (for \<open>vm0\<close>) build them.\<close>

definition numberTok :: "string \<Rightarrow> token" where
  "numberTok v = \<lparr>token.Kind = numberToken, Value = v, Err = None\<rparr>"

definition identTok :: "string \<Rightarrow> token" where
  "identTok v = \<lparr>token.Kind = identToken, Value = v, Err = None\<rparr>"

definition identNode :: "string \<Rightarrow> Message list option list \<Rightarrow> Message" where
  "identNode name as =
     Message.Message (Some 7) [Ptr 0] (zeroSymbol\<lparr>Kind := IdentSym, Text := name\<rparr>) as GoNil"

definition numberNode :: "rat \<Rightarrow> Message" where
  "numberNode q =
     Message.Message (Some 7) [Ptr 0] (zeroSymbol\<lparr>Kind := NumSym, Num := Finite q\<rparr>) []
       (NumberP (Finite q))"

definition argValue :: "VM \<Rightarrow> Message \<Rightarrow> nat \<Rightarrow> Interface" where
  "argValue vm msg i = (case ArgAt msg (int i) of Some x \<Rightarrow> MessageP x | None \<Rightarrow> Nil vm)"

fun bindMap :: "VM \<Rightarrow> Message \<Rightarrow> nat \<Rightarrow> string list \<Rightarrow> (string \<rightharpoonup> Interface) \<Rightarrow> (string \<rightharpoonup> Interface)" where
  "bindMap vm msg i [] m = m"
| "bindMap vm msg i (arg # rest) m = bindMap vm msg (Suc i) rest (m(arg \<mapsto> argValue vm msg i))"

definition ownSlot :: "Heap \<Rightarrow> Interface \<Rightarrow> string \<Rightarrow> Interface option" where
  "ownSlot h ob name = (case slotsOf h ob of Return slots \<Rightarrow> mapIndex h slots name | _ \<Rightarrow> None)"

definition boundSlot :: "(Interface \<times> Heap) outcome \<Rightarrow> string \<Rightarrow> Interface option" where
  "boundSlot res name = (case res of Return (ob, h) \<Rightarrow> ownSlot h ob name | _ \<Rightarrow> None)"

text \<open>The object at \<open>a\<close> has the slot map at \<open>s\<close>, whose content is \<open>m\<close>.\<close>

definition objectAt :: "Heap \<Rightarrow> nat \<Rightarrow> nat \<Rightarrow> (string \<rightharpoonup> Interface) \<Rightarrow> bool" where
  "objectAt h a s m =
     ((case cells h a of Some (ObjectCell ob) \<Rightarrow> Object.Slots ob = Some s | _ \<Rightarrow> False) \<and>
      slotMaps h s = Some m)"


definition scopeOf :: "Block \<Rightarrow> Interface \<Rightarrow> Interface" where
  "scopeOf b target = (if Self b = GoNil then target else Self b)"

text \<open>
  Modelled from the spec: \<^verbatim>\<open>Message.Eval\<close> is absent from src. Section 4.3: "Literal-kind
  nodes skip lookup and simply yield their memoized value as the current result", and the
  result of a chain is the result of its last node. \<open>literalValue\<close> is this rule on a chain
  made of literal nodes only; on any other chain it says nothing (\<open>None\<close>).
\<close>

definition literalValue :: "Message list \<Rightarrow> Interface option" where
  "literalValue ns =
     (if ns \<noteq> [] \<and>
         list_all (\<lambda>m. Symbol.Kind (Symbol m) = NumSym \<or> Symbol.Kind (Symbol m) = StringSym) ns
      then Some (Memo (last ns)) else None)"

definition literalEval :: eval where
  "literalEval h body locals =
     (case body of
        None \<Rightarrow> OutOfFuel
      | Some ns \<Rightarrow> (case literalValue ns of None \<Rightarrow> OutOfFuel | Some v \<Rightarrow> Return (v, h)))"

text \<open>A heap with the block \<^verbatim>\<open>block(x, 7)\<close> at address 5, and the same block as a method at 6.\<close>

definition blockX :: Block where
  "blockX = \<lparr>Slots = Some 8, Protos = [Ptr 0], Block.Message = Some [numberNode 7],
     Self = Ptr 2, ArgNames = [''x''], Activatable = False\<rparr>"

definition heap0 :: Heap where
  "heap0 = \<lparr>cells = [0 \<mapsto> ObjectCell \<lparr>Slots = Some 9, Protos = []\<rparr>,
                      5 \<mapsto> BlockCell blockX,
                      6 \<mapsto> BlockCell (blockX\<lparr>Activatable := True, Self := GoNil\<rparr>)],
            slotMaps = [7 \<mapsto> Map.empty, 8 \<mapsto> Map.empty, 9 \<mapsto> Map.empty],
            fresh = 10\<rparr>"

text \<open>The message \<^verbatim>\<open>block(x, 7)\<close>, the block and the method made from it in \<open>heap0\<close>.\<close>

definition nameOf :: "Message list option \<Rightarrow> string" where
  "nameOf m = (case m of Some (n # _) \<Rightarrow> Text (Symbol n) | _ \<Rightarrow> [])"

definition blockMsg :: Message where
  "blockMsg = identNode ''block'' [Some [identNode ''x'' []], Some [numberNode 7]]"

definition madeBlock :: Block where
  "madeBlock = \<lparr>Slots = Some 8, Protos = [Ptr 0], Block.Message = Some [numberNode 7],
     Self = Ptr 2, ArgNames = [''x''], Activatable = False\<rparr>"

definition heapB :: Heap where
  "heapB = snd (alloc (BlockCell madeBlock) heap0)"

definition heapM :: Heap where
  "heapM = heapB\<lparr>cells := (cells heapB)
     (10 \<mapsto> BlockCell (madeBlock\<lparr>Activatable := True, Self := GoNil\<rparr>))\<rparr>"

text \<open>A property of every node of a chain, the nodes of its argument chains included.\<close>

fun allNodes :: "(Message \<Rightarrow> bool) \<Rightarrow> Message \<Rightarrow> bool" where
  "allNodes P (Message.Message sl pr sy as me) =
     (P (Message.Message sl pr sy as me) \<and>
      (\<forall>a \<in> set as. \<forall>ns \<in> set_option a. \<forall>n \<in> set ns. allNodes P n))"

definition usesDefaultSlots :: "VM \<Rightarrow> Message \<Rightarrow> bool" where
  "usesDefaultSlots vm m = (Message.Slots m = DefaultSlots vm ''Message'')"

definition chainShares :: "VM \<Rightarrow> Message list \<Rightarrow> bool" where
  "chainShares vm ns = (\<forall>n \<in> set ns. allNodes (usesDefaultSlots vm) n)"

definition chainInv :: "VM \<Rightarrow> Message list \<Rightarrow> bool" where
  "chainInv vm ns = (ns \<noteq> [] \<and> chainShares vm ns)"

definition goodResult :: "VM \<Rightarrow> parsed outcome \<Rightarrow> bool" where
  "goodResult vm res =
     (case res of
        Return (tok, msg, err, ch) \<Rightarrow> (case msg of None \<Rightarrow> True | Some c \<Rightarrow> chainShares vm c)
      | _ \<Rightarrow> True)"

text \<open>
  A method whose body is \<^verbatim>\<open>block(x, 7)\<close>, at address 6 of \<open>heapC\<close>, and an evaluator for
  this body: it hands the one message of the body to \<^verbatim>\<open>ObjectBlock\<close>, with the locals in which
  the body is evaluated as target and as locals.
\<close>

definition creatorMethod :: Block where
  "creatorMethod = \<lparr>Slots = Some 8, Protos = [Ptr 0], Block.Message = Some [blockMsg],
     Self = GoNil, ArgNames = [], Activatable = True\<rparr>"

definition heapC :: Heap where
  "heapC = \<lparr>cells = [0 \<mapsto> ObjectCell \<lparr>Slots = Some 9, Protos = []\<rparr>,
                      6 \<mapsto> BlockCell creatorMethod],
            slotMaps = [7 \<mapsto> Map.empty, 8 \<mapsto> Map.empty, 9 \<mapsto> Map.empty],
            fresh = 10\<rparr>"

definition creatorEval :: eval where
  "creatorEval h body locals =
     (case body of
        Some [m] \<Rightarrow> ObjectBlock nameOf vm0 h locals locals m
      | _ \<Rightarrow> OutOfFuel)"

definition resultOf :: "(Interface \<times> Heap) outcome \<Rightarrow> Interface option" where
  "resultOf res = (case res of Return (v, h) \<Rightarrow> Some v | _ \<Rightarrow> None)"

definition slotAfter :: "(Interface \<times> Heap) outcome \<Rightarrow> Interface \<Rightarrow> string \<Rightarrow> Interface option" where
  "slotAfter res ob name = (case res of Return (v, h) \<Rightarrow> ownSlot h ob name | _ \<Rightarrow> None)"

definition capturedSelf :: "(Interface \<times> Heap) outcome \<Rightarrow> Interface option" where
  "capturedSelf res =
     (case res of
        Return (Ptr a, h) \<Rightarrow> (case cells h a of Some (BlockCell b) \<Rightarrow> Some (Self b) | _ \<Rightarrow> None)
      | _ \<Rightarrow> None)"

definition selfWhenActivated :: "VM \<Rightarrow> (Interface \<times> Heap) outcome \<Rightarrow> Interface \<Rightarrow> Interface \<Rightarrow> Message \<Rightarrow> Interface option" where
  "selfWhenActivated vm res target locals msg =
     (case res of
        Return (Ptr a, h) \<Rightarrow>
          (case cells h a of
             Some (BlockCell b) \<Rightarrow> boundSlot (blockLocals vm h a b target locals msg) ''self''
           | _ \<Rightarrow> None)
      | _ \<Rightarrow> None)"

text \<open>
  Modelled from the spec: \<^verbatim>\<open>Message.Eval\<close> is absent from src. Section 4.3: "At each message
  node: resolve the node's identifier (if present) by slot lookup in \<^verbatim>\<open>locals\<close>'s prototype
  graph (or, for chained sends, in the previous result's graph); if found, invoke that
  value's activate operation with \<^verbatim>\<open>(runtime, resultSoFar, locals, thisMessageNode)\<close>; the
  returned value becomes the new current result, and evaluation proceeds to the node's
  \<^verbatim>\<open>Next\<close> link. Literal-kind nodes skip lookup and simply yield their memoized value as the
  current result." And: "states are {start, have-current-result}; terminal state is reached
  when the chain's \<^verbatim>\<open>Next\<close> link is exhausted; a non-local-control signal encountered at any
  point short-circuits remaining siblings and propagates upward until a block activation
  (or the top level) absorbs it."

  The lookup of an identifier and the activation of what it finds are the parameter \<open>send\<close>,
  given the heap, the target (the result so far; the locals in the start state), the locals
  and the node. A separator node leads back to the start state and a node without symbol does
  nothing. Where the spec is silent, the result of a chain that yields no value is taken to
  be \<^verbatim>\<open>vm.Nil\<close>, and a nil chain is evaluated as the empty chain.
\<close>

type_synonym send = "Heap \<Rightarrow> Interface \<Rightarrow> Interface \<Rightarrow> Message \<Rightarrow> (Interface \<times> Heap) outcome"

definition isStop :: "Interface \<Rightarrow> bool" where
  "isStop v = (case v of Stop p \<Rightarrow> True | _ \<Rightarrow> False)"

fun evalChain :: "send \<Rightarrow> Heap \<Rightarrow> Interface \<Rightarrow> Interface \<Rightarrow> Interface \<Rightarrow> Message list \<Rightarrow> (Interface \<times> Heap) outcome" where
  "evalChain send h locals target result [] = Return (result, h)"
| "evalChain send h locals target result (m # rest) =
     (if Symbol.Kind (Symbol m) = SemiSym then evalChain send h locals locals result rest
      else if Symbol.Kind (Symbol m) = NoSym then evalChain send h locals target result rest
      else
        (case (if Symbol.Kind (Symbol m) = IdentSym then send h target locals m
               else Return (Memo m, h)) of
           Crash p \<Rightarrow> Crash p
         | OutOfFuel \<Rightarrow> OutOfFuel
         | Return (r, h') \<Rightarrow>
             if isStop r then Return (r, h') else evalChain send h' locals r r rest))"

definition MessageEval :: "send \<Rightarrow> VM \<Rightarrow> eval" where
  "MessageEval send vm h body locals =
     evalChain send h locals locals (Nil vm) (case body of None \<Rightarrow> [] | Some ns \<Rightarrow> ns)"

text \<open>
  A body with three statements, \<^verbatim>\<open>1; stop; mark\<close>, and a \<open>send\<close> for it: \<open>stop\<close> yields
  the signal carrying 7, \<open>mark\<close> sets the slot \<open>seen\<close> of the locals.
\<close>

definition semiNode :: Message where
  "semiNode = Message.Message (Some 7) [Ptr 0] (zeroSymbol\<lparr>Kind := SemiSym, Text := '';''\<rparr>) [] GoNil"

definition demoSend :: send where
  "demoSend h target locals m =
     (if Text (Symbol m) = ''stop'' then Return (Stop (NumberP (Finite 7)), h)
      else if Text (Symbol m) = ''mark'' then
        (case SetSlot h locals ''seen'' (NumberP (Finite 1)) of
           Crash p \<Rightarrow> Crash p
         | OutOfFuel \<Rightarrow> OutOfFuel
         | Return h' \<Rightarrow> Return (NumberP (Finite 1), h'))
      else Return (Nil vm0, h))"

definition untilStop :: "Message list" where
  "untilStop = [numberNode 1, semiNode, identNode ''stop'' []]"

definition afterStop :: "Message list" where
  "afterStop = [semiNode, identNode ''mark'' []]"

definition stopBlock :: Block where
  "stopBlock = \<lparr>Slots = Some 8, Protos = [Ptr 0], Block.Message = Some (untilStop @ afterStop),
     Self = GoNil, ArgNames = [], Activatable = True\<rparr>"

definition markBlock :: Block where
  "markBlock = \<lparr>Slots = Some 8, Protos = [Ptr 0], Block.Message = Some afterStop,
     Self = GoNil, ArgNames = [], Activatable = True\<rparr>"

definition heapS :: Heap where
  "heapS = \<lparr>cells = [0 \<mapsto> ObjectCell \<lparr>Slots = Some 9, Protos = []\<rparr>,
                      5 \<mapsto> BlockCell stopBlock, 6 \<mapsto> BlockCell markBlock],
            slotMaps = [7 \<mapsto> Map.empty, 8 \<mapsto> Map.empty, 9 \<mapsto> Map.empty],
            fresh = 10\<rparr>"



text \<open>
  What a call of the parser on a channel with \<open>L\<close> tokens to come does when its bound is
  large enough: it does not stop at the bound, it leaves at most \<open>L\<close> tokens, and when it
  returns a comma it has received a token, or returns the token it was given.
\<close>

definition fuelled :: "nat \<Rightarrow> token \<Rightarrow> parsed outcome \<Rightarrow> bool" where
  "fuelled L tok0 res =
     (case res of
        OutOfFuel \<Rightarrow> False
      | Crash p \<Rightarrow> True
      | Return (t, m, e, ch') \<Rightarrow>
          length (fst ch') \<le> L \<and> (token.Kind t = commaToken \<longrightarrow> length (fst ch') < L \<or> t = tok0))"

section \<open>Properties of the lexer and the parser on concrete texts\<close>

text \<open>
  Claim C2: the arguments of a bracket. The code checks for an empty argument before it appends
  the last chain of the bracket, so the checks never see that chain. On \<^verbatim>\<open>f()\<close> the message
  \<open>f\<close> gets one argument, the nil chain, not zero arguments. On \<^verbatim>\<open>f(1,)\<close> no error is
  reported and \<open>f\<close> gets two arguments, the second the nil chain. On \<^verbatim>\<open>f(,)\<close> the error
  "empty argument" is raised, but the deferred cleanup then dereferences the nil \<^verbatim>\<open>Prev\<close> of
  the first node and the parser panics. Only \<^verbatim>\<open>f(1,2)\<close> does what is claimed: two argument
  chains.
\<close>

theorem parse_argument_lists:
  "Parse goStrconv vm0 EOF ''f()'' = Return (Some [identNode ''f'' [None]], None) \<and>
   Parse goStrconv vm0 EOF ''f(,)'' = Crash NilDereference \<and>
   Parse goStrconv vm0 EOF ''f(1,)'' =
     Return (Some [identNode ''f'' [Some [numberNode 1], None]], None) \<and>
   Parse goStrconv vm0 EOF ''f(1,2)'' =
     Return (Some [identNode ''f'' [Some [numberNode 1], Some [numberNode 2]]], None)"
  by code_simp

text \<open>
  Claim C3: a digit run followed by \<open>x\<close>. \<^verbatim>\<open>accept\<close> leaves the \<open>x\<close> unread, so the run of
  hexadecimal digits that \<^verbatim>\<open>lexNumber\<close> reads next stops at once at that \<open>x\<close>; the token is
  sent as a number token, not a hex token, and, the \<^verbatim>\<open>return\<close> missing, it is sent a second
  time at the end of the function. The text \<^verbatim>\<open>0x1F\<close> becomes the number token \<open>0x\<close> twice and
  the identifier \<open>x1F\<close>, and parsing it fails on \<^verbatim>\<open>ParseFloat("0x")\<close>: it does not decode
  to 31.
\<close>

theorem lexNumber_hex:
  "lex EOF ''0x1F'' = Closed [numberTok ''0x'', numberTok ''0x'', identTok ''x1F''] \<and>
   Parse goStrconv vm0 EOF ''0x1F'' = Return (None, Some (NumError ErrSyntax))"
  by code_simp

text \<open>
  Claim C7: the exponent of a number. After the digit run \<^verbatim>\<open>accept\<close> leaves the \<open>e\<close>
  unread, and the \<^verbatim>\<open>ReadRune\<close> whose result is tested for a sign reads that \<open>e\<close> again: the
  test never succeeds. An exponent without a sign is read into the token (\<^verbatim>\<open>1e5\<close> is one
  token), but \<^verbatim>\<open>1e-5\<close> is cut after the \<open>e\<close>: the number token \<open>1e\<close>, the identifier
  \<open>-\<close> and the number token \<open>5\<close>; parsing it fails on \<^verbatim>\<open>ParseFloat("1e")\<close>.
\<close>

theorem lexNumber_signed_exponent:
  "lex EOF ''1e5'' = Closed [numberTok ''1e5''] \<and>
   lex EOF ''1e-5'' = Closed [numberTok ''1e'', identTok ''-'', numberTok ''5''] \<and>
   Parse goStrconv vm0 EOF ''1e-5'' = Return (None, Some (NumError ErrSyntax))"
  by code_simp

section \<open>Properties of block activation\<close>

lemma objectAt_iff:
  "objectAt h a s m \<longleftrightarrow>
     (\<exists>ob. cells h a = Some (ObjectCell ob) \<and> Object.Slots ob = Some s) \<and> slotMaps h s = Some m"
  by (auto simp: objectAt_def split: option.splits cell.splits)

lemma objectAt_ownSlot: "objectAt h a s m \<Longrightarrow> ownSlot h (Ptr a) name = m name"
  by (auto simp: objectAt_iff ownSlot_def slotsOf_def mapIndex_def)

lemma SetSlot_objectAt:
  assumes "objectAt h a s m"
  shows "\<exists>h'. SetSlot h (Ptr a) name v = Return h' \<and> objectAt h' a s (m(name \<mapsto> v)) \<and>
              fresh h' = fresh h \<and> cells h' = cells h"
proof -
  from assms obtain ob where ob: "cells h a = Some (ObjectCell ob)" "Object.Slots ob = Some s"
      "slotMaps h s = Some m"
    by (auto simp: objectAt_iff)
  let ?h' = "h\<lparr>slotMaps := (slotMaps h)(s \<mapsto> m(name \<mapsto> v))\<rparr>"
  have "SetSlot h (Ptr a) name v = Return ?h'"
    using ob by (simp add: SetSlot_def slotsOf_def mapAssign_def)
  moreover have "objectAt ?h' a s (m(name \<mapsto> v))"
    using ob by (simp add: objectAt_iff)
  ultimately show ?thesis by auto
qed

lemma bindArgs_Cons:
  "bindArgs vm h blkLocals msg i (arg # rest) =
     (case SetSlot h blkLocals arg (argValue vm msg i) of
        Crash p \<Rightarrow> Crash p
      | OutOfFuel \<Rightarrow> OutOfFuel
      | Return h' \<Rightarrow> bindArgs vm h' blkLocals msg (Suc i) rest)"
  by (simp add: argValue_def)

lemma bindArgs_objectAt:
  assumes "objectAt h a s m"
  shows "\<exists>h'. bindArgs vm h (Ptr a) msg i names = Return h' \<and>
              objectAt h' a s (bindMap vm msg i names m) \<and> fresh h' = fresh h \<and> cells h' = cells h"
  using assms
proof (induction names arbitrary: h i m)
  case Nil
  then show ?case by simp
next
  case (Cons arg rest)
  from SetSlot_objectAt[OF Cons.prems, of arg "argValue vm msg i"]
  obtain h1 where h1: "SetSlot h (Ptr a) arg (argValue vm msg i) = Return h1"
      "objectAt h1 a s (m(arg \<mapsto> argValue vm msg i))" "fresh h1 = fresh h" "cells h1 = cells h"
    by blast
  from Cons.IH[OF h1(2), of "Suc i"]
  obtain h2 where h2: "bindArgs vm h1 (Ptr a) msg (Suc i) rest = Return h2"
      "objectAt h2 a s (bindMap vm msg (Suc i) rest (m(arg \<mapsto> argValue vm msg i)))"
      "fresh h2 = fresh h1" "cells h2 = cells h1"
    by blast
  show ?case
    unfolding bindArgs_Cons using h1 h2 by simp
qed

lemma bindMap_other: "name \<notin> set names \<Longrightarrow> bindMap vm msg i names m name = m name"
  by (induction names arbitrary: i m) auto

lemma bindMap_nth:
  "j < length names \<Longrightarrow> names ! j \<notin> set (drop (Suc j) names) \<Longrightarrow>
     bindMap vm msg i names m (names ! j) = Some (argValue vm msg (i + j))"
proof (induction names arbitrary: i j m)
  case Nil
  then show ?case by simp
next
  case (Cons arg rest)
  show ?case
  proof (cases j)
    case 0
    with Cons.prems show ?thesis by (simp add: bindMap_other)
  next
    case (Suc k)
    with Cons.prems Cons.IH[of k "Suc i"] show ?thesis by simp
  qed
qed

lemma newLocals_objectAt:
  "\<exists>a s h0. newLocals vm h = (Ptr a, h0) \<and> objectAt h0 a s Map.empty \<and> fresh h0 = Suc a"
  by (simp add: newLocals_def makeSlots_def alloc_def objectAt_iff)

lemma bindArgs_append:
  "bindArgs vm h l msg i (xs @ ys) =
     (case bindArgs vm h l msg i xs of
        Crash p \<Rightarrow> Crash p
      | OutOfFuel \<Rightarrow> OutOfFuel
      | Return h' \<Rightarrow> bindArgs vm h' l msg (i + length xs) ys)"
proof (induction xs arbitrary: h i)
  case Nil
  then show ?case by simp
next
  case (Cons x xs)
  show ?case
    unfolding append_Cons bindArgs_Cons
    by (cases "SetSlot h l x (argValue vm msg i)")
       (simp_all add: Cons.IH cong: outcome.case_cong)
qed

lemma blockLocals_run:
  "\<exists>a s h0 h1.
     newLocals vm h = (Ptr a, h0) \<and> objectAt h0 a s Map.empty \<and>
     blockLocals vm h bref b target locals msg = Return (Ptr a, h1) \<and>
     objectAt h1 a s ((bindMap vm msg 0 (ArgNames b) Map.empty)
        (''self'' \<mapsto> scopeOf b target, ''call'' \<mapsto> Ptr (Suc a))) \<and>
     cells h1 (Suc a) =
       Some (CallCell \<lparr>Sender = locals, Target = target, Activated = Ptr bref, Message = msg\<rparr>)"
proof -
  from newLocals_objectAt[of vm h]
  obtain a s h2 where nl: "newLocals vm h = (Ptr a, h2)" and
    o2: "objectAt h2 a s Map.empty" and f2: "fresh h2 = Suc a"
    by blast
  from bindArgs_objectAt[OF o2, of vm msg 0 "ArgNames b"]
  obtain h3 where h3: "bindArgs vm h2 (Ptr a) msg 0 (ArgNames b) = Return h3"
      "objectAt h3 a s (bindMap vm msg 0 (ArgNames b) Map.empty)" "fresh h3 = fresh h2"
    by blast
  define h4 where "h4 = snd (NewCall h3 locals (Ptr bref) msg target)"
  have nc: "NewCall h3 locals (Ptr bref) msg target = (Ptr (Suc a), h4)"
    by (simp add: NewCall_def alloc_def h4_def h3(3) f2)
  have c4: "cells h4 (Suc a) =
      Some (CallCell \<lparr>Sender = locals, Target = target, Activated = Ptr bref, Message = msg\<rparr>)"
    by (simp add: h4_def NewCall_def alloc_def h3(3) f2)
  have o4: "objectAt h4 a s (bindMap vm msg 0 (ArgNames b) Map.empty)"
    using h3(2) h3(3) f2 by (auto simp: objectAt_iff h4_def NewCall_def alloc_def)
  from SetSlot_objectAt[OF o4, of "''self''" "scopeOf b target"]
  obtain h5 where h5: "SetSlot h4 (Ptr a) ''self'' (scopeOf b target) = Return h5"
      "objectAt h5 a s ((bindMap vm msg 0 (ArgNames b) Map.empty)(''self'' \<mapsto> scopeOf b target))"
      "cells h5 = cells h4"
    by blast
  from SetSlot_objectAt[OF h5(2), of "''call''" "Ptr (Suc a)"]
  obtain h6 where h6: "SetSlot h5 (Ptr a) ''call'' (Ptr (Suc a)) = Return h6"
      "objectAt h6 a s ((bindMap vm msg 0 (ArgNames b) Map.empty)
         (''self'' \<mapsto> scopeOf b target, ''call'' \<mapsto> Ptr (Suc a)))"
      "cells h6 = cells h5"
    by blast
  have "blockLocals vm h bref b target locals msg = Return (Ptr a, h6)"
    unfolding blockLocals_def
    by (simp add: nl h3(1) nc h5(1) h6(1) Let_def scopeOf_def[symmetric])
  with nl o2 h6(2) c4 h5(3) h6(3) show ?thesis by auto
qed

lemma blockLocals_slots:
  "\<exists>blkLocals h1 call.
     blockLocals vm h bref b target locals msg = Return (blkLocals, h1) \<and>
     (\<forall>name. ownSlot h1 blkLocals name =
        ((bindMap vm msg 0 (ArgNames b) Map.empty)
           (''self'' \<mapsto> scopeOf b target, ''call'' \<mapsto> call)) name)"
proof -
  from blockLocals_run[of vm h bref b target locals msg]
  obtain a s h1 where
    "blockLocals vm h bref b target locals msg = Return (Ptr a, h1)"
    "objectAt h1 a s ((bindMap vm msg 0 (ArgNames b) Map.empty)
        (''self'' \<mapsto> scopeOf b target, ''call'' \<mapsto> Ptr (Suc a)))"
    by blast
  with objectAt_ownSlot[of h1 a s] show ?thesis by blast
qed

lemma reallyActivate_eq:
  assumes "cells h bref = Some (BlockCell b)"
      and "blockLocals vm h bref b target locals msg = Return (blkLocals, h1)"
  shows "reallyActivate Eval vm h bref target locals msg =
           unwrapResult (Eval h1 (Block.Message b) blkLocals)"
  using assms by (simp add: reallyActivate_def)

lemma argValue_eq:
  "argValue vm msg i =
     (if i < length (Args msg) then (case Args msg ! i of Some x \<Rightarrow> MessageP x | None \<Rightarrow> Nil vm)
      else Nil vm)"
  by (simp add: argValue_def ArgAt_def)

lemma bindArgs_prefix:
  assumes "objectAt h0 a s m" and "i < length names"
  shows "\<exists>hi. bindArgs vm h0 (Ptr a) msg 0 (take (Suc i) names) = Return hi \<and>
              ownSlot hi (Ptr a) (names ! i) = Some (argValue vm msg i) \<and>
              bindArgs vm h0 (Ptr a) msg 0 names =
                bindArgs vm hi (Ptr a) msg (Suc i) (drop (Suc i) names)"
proof -
  from bindArgs_objectAt[OF assms(1), of vm msg 0 "take (Suc i) names"]
  obtain hi where hi: "bindArgs vm h0 (Ptr a) msg 0 (take (Suc i) names) = Return hi"
      "objectAt hi a s (bindMap vm msg 0 (take (Suc i) names) m)"
    by blast
  have "take (Suc i) names ! i \<notin> set (drop (Suc i) (take (Suc i) names))"
    by simp
  with bindMap_nth[of i "take (Suc i) names" vm msg 0 m] assms(2)
  have "bindMap vm msg 0 (take (Suc i) names) m (names ! i) = Some (argValue vm msg i)"
    by simp
  with objectAt_ownSlot[OF hi(2)]
  have sl: "ownSlot hi (Ptr a) (names ! i) = Some (argValue vm msg i)"
    by simp
  have "bindArgs vm h0 (Ptr a) msg 0 (take (Suc i) names @ drop (Suc i) names) =
          bindArgs vm hi (Ptr a) msg (Suc i) (drop (Suc i) names)"
    unfolding bindArgs_append using hi(1) assms(2) by (simp add: min_def)
  with hi(1) sl show ?thesis by simp
qed

text \<open>
  Claim C1, as stated, fails: the arguments of the call are not evaluated. For the call
  \<^verbatim>\<open>f(1)\<close> of a method with the parameter \<open>x\<close>, the slot \<open>x\<close> of the fresh locals holds
  the argument's message chain itself, not the number 1 that evaluating this literal yields.
\<close>

theorem activation_binds_evaluated_arguments_counterexample:
  "boundSlot (blockLocals vm0 heap0 6 (blockX\<lparr>Activatable := True, Self := GoNil\<rparr>) (Ptr 3) (Ptr 4)
      (identNode ''f'' [Some [numberNode 1]])) ''x'' = Some (MessageP [numberNode 1]) \<and>
   literalValue [numberNode 1] = Some (NumberP (Finite 1)) \<and>
   boundSlot (blockLocals vm0 heap0 6 (blockX\<lparr>Activatable := True, Self := GoNil\<rparr>) (Ptr 3) (Ptr 4)
      (identNode ''f'' [Some [numberNode 1]])) ''x'' \<noteq> literalValue [numberNode 1]"
  by code_simp

text \<open>
  Claim C1, amended: binding the parameters. When a block is really activated, for each
  declared parameter name in order, the argument of the call-site message at the same
  position is bound to that name in the fresh locals object, as the unevaluated message
  chain that \<^verbatim>\<open>ArgAt\<close> returns: no argument is evaluated. Every parameter past the number of
  supplied arguments (or whose argument chain is nil) is bound to \<^verbatim>\<open>vm.Nil\<close>. The theorem
  follows the run: the loop over the first \<open>i + 1\<close> names leaves the name \<open>i\<close> bound to its
  argument, and the whole loop is this run followed by the loop over the names left. It
  also says what the body then finds: the binding of a name is still there unless a later
  parameter has the same name or the name is \<open>self\<close> or \<open>call\<close>, for these two slots are set
  after the loop, to the scope and to the new call record. The locals object starts with no
  slot, and a name that is neither a parameter nor \<open>self\<close> nor \<open>call\<close> has none at the end.
\<close>

theorem reallyActivate_binds_argument_messages:
  assumes "cells h bref = Some (BlockCell b)" and "i < length (ArgNames b)"
  shows "\<exists>blkLocals h0 hi h1 c.
           newLocals vm h = (blkLocals, h0) \<and> ownSlot h0 blkLocals name = None \<and>
           bindArgs vm h0 blkLocals msg 0 (take (Suc i) (ArgNames b)) = Return hi \<and>
           ownSlot hi blkLocals (ArgNames b ! i) =
             Some (if i < length (Args msg)
                   then (case Args msg ! i of Some x \<Rightarrow> MessageP x | None \<Rightarrow> Nil vm)
                   else Nil vm) \<and>
           bindArgs vm h0 blkLocals msg 0 (ArgNames b) =
             bindArgs vm hi blkLocals msg (Suc i) (drop (Suc i) (ArgNames b)) \<and>
           blockLocals vm h bref b target locals msg = Return (blkLocals, h1) \<and>
           reallyActivate Eval vm h bref target locals msg =
             unwrapResult (Eval h1 (Block.Message b) blkLocals) \<and>
           (ArgNames b ! i \<notin> set (drop (Suc i) (ArgNames b)) \<and>
            ArgNames b ! i \<noteq> ''self'' \<and> ArgNames b ! i \<noteq> ''call'' \<longrightarrow>
              ownSlot h1 blkLocals (ArgNames b ! i) =
                Some (if i < length (Args msg)
                      then (case Args msg ! i of Some x \<Rightarrow> MessageP x | None \<Rightarrow> Nil vm)
                      else Nil vm)) \<and>
           (name \<notin> set (ArgNames b) \<and> name \<noteq> ''self'' \<and> name \<noteq> ''call'' \<longrightarrow>
              ownSlot h1 blkLocals name = None) \<and>
           ownSlot h1 blkLocals ''self'' = Some (if Self b = GoNil then target else Self b) \<and>
           ownSlot h1 blkLocals ''call'' = Some (Ptr c) \<and>
           cells h1 c =
             Some (CallCell \<lparr>Sender = locals, Target = target, Activated = Ptr bref, Message = msg\<rparr>)"
proof -
  from blockLocals_run[of vm h bref b target locals msg]
  obtain a s h0 h1 where
    nl: "newLocals vm h = (Ptr a, h0)" and o0: "objectAt h0 a s Map.empty" and
    bl: "blockLocals vm h bref b target locals msg = Return (Ptr a, h1)" and
    o1: "objectAt h1 a s ((bindMap vm msg 0 (ArgNames b) Map.empty)
            (''self'' \<mapsto> scopeOf b target, ''call'' \<mapsto> Ptr (Suc a)))" and
    cc: "cells h1 (Suc a) =
           Some (CallCell \<lparr>Sender = locals, Target = target, Activated = Ptr bref, Message = msg\<rparr>)"
    by blast
  from bindArgs_prefix[OF o0 assms(2), of vm msg]
  obtain hi where hi: "bindArgs vm h0 (Ptr a) msg 0 (take (Suc i) (ArgNames b)) = Return hi"
      "ownSlot hi (Ptr a) (ArgNames b ! i) = Some (argValue vm msg i)"
      "bindArgs vm h0 (Ptr a) msg 0 (ArgNames b) =
         bindArgs vm hi (Ptr a) msg (Suc i) (drop (Suc i) (ArgNames b))"
    by blast
  note sl = objectAt_ownSlot[OF o1]
  have fin: "ArgNames b ! i \<notin> set (drop (Suc i) (ArgNames b)) \<and>
            ArgNames b ! i \<noteq> ''self'' \<and> ArgNames b ! i \<noteq> ''call'' \<longrightarrow>
              ownSlot h1 (Ptr a) (ArgNames b ! i) = Some (argValue vm msg i)"
    using sl[of "ArgNames b ! i"] bindMap_nth[OF assms(2), of vm msg 0 Map.empty] by simp
  have new: "ownSlot h0 (Ptr a) name = None"
    using objectAt_ownSlot[OF o0, of name] by simp
  have other: "name \<notin> set (ArgNames b) \<and> name \<noteq> ''self'' \<and> name \<noteq> ''call'' \<longrightarrow>
              ownSlot h1 (Ptr a) name = None"
    using sl[of name] by (simp add: bindMap_other)
  have self: "ownSlot h1 (Ptr a) ''self'' = Some (if Self b = GoNil then target else Self b)"
    using sl[of "''self''"] by (simp add: scopeOf_def)
  have call: "ownSlot h1 (Ptr a) ''call'' = Some (Ptr (Suc a))"
    using sl[of "''call''"] by simp
  from nl new hi bl reallyActivate_eq[OF assms(1) bl, of Eval] fin other self call cc
  show ?thesis
    unfolding argValue_eq by blast
qed

theorem reallyActivate_binds_argument_messages_witness:
  "cells heap0 5 = Some (BlockCell blockX) \<and> (0::nat) < length (ArgNames blockX) \<and>
   (\<exists>blkLocals h0 hi h1 c.
      newLocals vm0 heap0 = (blkLocals, h0) \<and> ownSlot h0 blkLocals ''y'' = None \<and>
      bindArgs vm0 h0 blkLocals (identNode ''f'' [Some [numberNode 1]]) 0 [''x''] = Return hi \<and>
      ownSlot hi blkLocals ''x'' = Some (MessageP [numberNode 1]) \<and>
      blockLocals vm0 heap0 5 blockX (Ptr 3) (Ptr 4) (identNode ''f'' [Some [numberNode 1]]) =
        Return (blkLocals, h1) \<and>
      reallyActivate literalEval vm0 heap0 5 (Ptr 3) (Ptr 4) (identNode ''f'' [Some [numberNode 1]]) =
        unwrapResult (literalEval h1 (Block.Message blockX) blkLocals) \<and>
      ownSlot h1 blkLocals ''x'' = Some (MessageP [numberNode 1]) \<and>
      ownSlot h1 blkLocals ''y'' = None \<and>
      ownSlot h1 blkLocals ''self'' = Some (Ptr 2) \<and>
      ownSlot h1 blkLocals ''call'' = Some (Ptr c) \<and>
      cells h1 c = Some (CallCell \<lparr>Sender = Ptr 4, Target = Ptr 3, Activated = Ptr 5,
                          Message = identNode ''f'' [Some [numberNode 1]]\<rparr>))"
proof -
  have c: "cells heap0 5 = Some (BlockCell blockX)" by (simp add: heap0_def)
  have n: "ArgNames blockX = [''x'']" by (simp add: blockX_def)
  have s: "Self blockX = Ptr 2" by (simp add: blockX_def)
  have a: "Args (identNode ''f'' [Some [numberNode 1]]) = [Some [numberNode 1]]"
    by (simp add: identNode_def)
  have l: "(0::nat) < length (ArgNames blockX)" by (simp add: n)
  from reallyActivate_binds_argument_messages[OF c l, where vm = vm0
      and msg = "identNode ''f'' [Some [numberNode 1]]" and target = "Ptr 3" and locals = "Ptr 4"
      and Eval = literalEval and name = "''y''"]
  show ?thesis
    unfolding n a s using c by (simp add: n) blast
qed

text \<open>
  Claim C4, as stated, fails for closures: the object a block captures is not the object
  that \<open>self\<close> denotes where the block is created. A method activated on the object at 0
  runs its body \<^verbatim>\<open>block(x, 7)\<close> in fresh locals, the object at 11, whose slot \<open>self\<close> is
  the object at 0; the block made there captures the object at 11, and when it is activated
  later its body's \<open>self\<close> is the object at 11, not the object at 0.
\<close>

theorem closure_keeps_self_counterexample:
  "resultOf (Activate creatorEval vm0 heapC 6 (Ptr 0) (Ptr 4) (identNode ''m'' [])) = Some (Ptr 13) \<and>
   slotAfter (Activate creatorEval vm0 heapC 6 (Ptr 0) (Ptr 4) (identNode ''m'' [])) (Ptr 11) ''self'' =
     Some (Ptr 0) \<and>
   capturedSelf (Activate creatorEval vm0 heapC 6 (Ptr 0) (Ptr 4) (identNode ''m'' [])) =
     Some (Ptr 11) \<and>
   selfWhenActivated vm0 (Activate creatorEval vm0 heapC 6 (Ptr 0) (Ptr 4) (identNode ''m'' []))
       (Ptr 3) (Ptr 4) (identNode ''f'' []) = Some (Ptr 11) \<and>
   selfWhenActivated vm0 (Activate creatorEval vm0 heapC 6 (Ptr 0) (Ptr 4) (identNode ''m'' []))
       (Ptr 3) (Ptr 4) (identNode ''f'' []) \<noteq> Some (Ptr 0)"
  by code_simp

text \<open>
  Claim C4, amended: the \<open>self\<close> of a block body. \<^verbatim>\<open>ObjectBlock\<close> captures, as the block's
  \<^verbatim>\<open>Self\<close>, the locals object \<open>S\<close> in which the creating message is evaluated (its
  \<^verbatim>\<open>locals\<close> argument); whenever the block is activated later, with whatever call-site
  target, the \<open>self\<close> slot of the body's fresh locals is that object \<open>S\<close>. \<^verbatim>\<open>ObjectMethod\<close>
  clears \<^verbatim>\<open>Self\<close> and sets \<^verbatim>\<open>Activatable\<close>; then \<open>self\<close> is the target of the activation,
  and \<^verbatim>\<open>Activate\<close> does activate.
\<close>

theorem block_self_binding:
  "(ObjectBlock Name vm h0 target0 S msg0 = Return (Ptr a, h) \<and> S \<noteq> GoNil \<and>
    cells h' a = cells h a \<longrightarrow>
      (\<exists>b blkLocals h1.
         cells h' a = Some (BlockCell b) \<and> \<not> Activatable b \<and> Self b = S \<and>
         blockLocals vm h' a b target locals msg = Return (blkLocals, h1) \<and>
         reallyActivate Eval vm h' a target locals msg =
           unwrapResult (Eval h1 (Block.Message b) blkLocals) \<and>
         ownSlot h1 blkLocals ''self'' = Some S)) \<and>
   (ObjectMethod Name vm h0 target0 S msg0 = Return (Ptr a, h) \<and> cells h' a = cells h a \<longrightarrow>
      (\<exists>b blkLocals h1.
         cells h' a = Some (BlockCell b) \<and> Activatable b \<and> Self b = GoNil \<and>
         blockLocals vm h' a b target locals msg = Return (blkLocals, h1) \<and>
         Activate Eval vm h' a target locals msg =
           unwrapResult (Eval h1 (Block.Message b) blkLocals) \<and>
         ownSlot h1 blkLocals ''self'' = Some target))"
proof (intro conjI impI)
  assume asm: "ObjectBlock Name vm h0 target0 S msg0 = Return (Ptr a, h) \<and> S \<noteq> GoNil \<and>
    cells h' a = cells h a"
  then obtain b where b: "cells h a = Some (BlockCell b)" "\<not> Activatable b" "Self b = S"
    by (auto simp: ObjectBlock_def alloc_def split: if_splits)
  from blockLocals_slots[of vm h' a b target locals msg]
  obtain blkLocals h1 call where
    bl: "blockLocals vm h' a b target locals msg = Return (blkLocals, h1)" and
    sl: "\<And>name. ownSlot h1 blkLocals name =
           ((bindMap vm msg 0 (ArgNames b) Map.empty)
              (''self'' \<mapsto> scopeOf b target, ''call'' \<mapsto> call)) name"
    by blast
  have c': "cells h' a = Some (BlockCell b)" using asm b by simp
  have "ownSlot h1 blkLocals ''self'' = Some S"
    using sl[of "''self''"] b asm by (simp add: scopeOf_def)
  with c' b bl reallyActivate_eq[OF c' bl, of Eval]
  show "\<exists>b blkLocals h1.
         cells h' a = Some (BlockCell b) \<and> \<not> Activatable b \<and> Self b = S \<and>
         blockLocals vm h' a b target locals msg = Return (blkLocals, h1) \<and>
         reallyActivate Eval vm h' a target locals msg =
           unwrapResult (Eval h1 (Block.Message b) blkLocals) \<and>
         ownSlot h1 blkLocals ''self'' = Some S"
    by blast
next
  assume asm: "ObjectMethod Name vm h0 target0 S msg0 = Return (Ptr a, h) \<and> cells h' a = cells h a"
  then obtain b where b: "cells h a = Some (BlockCell b)" "Activatable b" "Self b = GoNil"
    by (auto simp: ObjectMethod_def ObjectBlock_def alloc_def split: if_splits)
  from blockLocals_slots[of vm h' a b target locals msg]
  obtain blkLocals h1 call where
    bl: "blockLocals vm h' a b target locals msg = Return (blkLocals, h1)" and
    sl: "\<And>name. ownSlot h1 blkLocals name =
           ((bindMap vm msg 0 (ArgNames b) Map.empty)
              (''self'' \<mapsto> scopeOf b target, ''call'' \<mapsto> call)) name"
    by blast
  have c': "cells h' a = Some (BlockCell b)" using asm b by simp
  have s: "ownSlot h1 blkLocals ''self'' = Some target"
    using sl[of "''self''"] b by (simp add: scopeOf_def)
  have "Activate Eval vm h' a target locals msg = reallyActivate Eval vm h' a target locals msg"
    using c' b by (simp add: Activate_def)
  with s c' b bl reallyActivate_eq[OF c' bl, of Eval]
  show "\<exists>b blkLocals h1.
         cells h' a = Some (BlockCell b) \<and> Activatable b \<and> Self b = GoNil \<and>
         blockLocals vm h' a b target locals msg = Return (blkLocals, h1) \<and>
         Activate Eval vm h' a target locals msg =
           unwrapResult (Eval h1 (Block.Message b) blkLocals) \<and>
         ownSlot h1 blkLocals ''self'' = Some target"
    by auto
qed

lemma ObjectBlock_blockMsg:
  "ObjectBlock nameOf vm0 heap0 (Ptr 0) (Ptr 2) blockMsg = Return (Ptr 10, heapB)"
  by (simp add: ObjectBlock_def blockMsg_def identNode_def numberNode_def vm0_def heapB_def
      alloc_def heap0_def madeBlock_def nameOf_def ArgAt_def zeroSymbol_def)

lemma ObjectMethod_blockMsg:
  "ObjectMethod nameOf vm0 heap0 (Ptr 0) (Ptr 2) blockMsg = Return (Ptr 10, heapM)"
  by (simp add: ObjectMethod_def ObjectBlock_blockMsg heapM_def) (simp add: heapB_def alloc_def heap0_def)

theorem block_self_binding_witness:
  "(ObjectBlock nameOf vm0 heap0 (Ptr 0) (Ptr 2) blockMsg = Return (Ptr 10, heapB) \<and>
    Ptr 2 \<noteq> GoNil \<and> cells heapB 10 = cells heapB 10) \<and>
   (\<exists>b blkLocals h1.
      cells heapB 10 = Some (BlockCell b) \<and> \<not> Activatable b \<and> Self b = Ptr 2 \<and>
      blockLocals vm0 heapB 10 b (Ptr 3) (Ptr 4) (identNode ''f'' []) = Return (blkLocals, h1) \<and>
      reallyActivate literalEval vm0 heapB 10 (Ptr 3) (Ptr 4) (identNode ''f'' []) =
        unwrapResult (literalEval h1 (Block.Message b) blkLocals) \<and>
      ownSlot h1 blkLocals ''self'' = Some (Ptr 2)) \<and>
   (ObjectMethod nameOf vm0 heap0 (Ptr 0) (Ptr 2) blockMsg = Return (Ptr 10, heapM) \<and>
    cells heapM 10 = cells heapM 10) \<and>
   (\<exists>b blkLocals h1.
      cells heapM 10 = Some (BlockCell b) \<and> Activatable b \<and> Self b = GoNil \<and>
      blockLocals vm0 heapM 10 b (Ptr 3) (Ptr 4) (identNode ''f'' []) = Return (blkLocals, h1) \<and>
      Activate literalEval vm0 heapM 10 (Ptr 3) (Ptr 4) (identNode ''f'' []) =
        unwrapResult (literalEval h1 (Block.Message b) blkLocals) \<and>
      ownSlot h1 blkLocals ''self'' = Some (Ptr 3))"
  using block_self_binding[of nameOf vm0 heap0 "Ptr 0" "Ptr 2" blockMsg 10 heapB heapB "Ptr 3" "Ptr 4"
      "identNode ''f'' []" literalEval]
    block_self_binding[of nameOf vm0 heap0 "Ptr 0" "Ptr 2" blockMsg 10 heapM heapM "Ptr 3" "Ptr 4"
      "identNode ''f'' []" literalEval]
    ObjectBlock_blockMsg ObjectMethod_blockMsg
  by simp

lemma evalChain_stop_append:
  assumes "\<not> isStop result"
      and "evalChain send h locals target result ns = Return (Stop payload, h2)"
  shows "evalChain send h locals target result (ns @ rest) = Return (Stop payload, h2)"
  using assms
proof (induction ns arbitrary: h target result)
  case Nil
  then show ?case by (simp add: isStop_def)
next
  case (Cons m ns)
  show ?case
  proof (cases "Symbol.Kind (Symbol m) = SemiSym \<or> Symbol.Kind (Symbol m) = NoSym")
    case True
    with Cons.prems Cons.IH[of result h locals] Cons.IH[of result h target] show ?thesis
      by (auto split: if_splits)
  next
    case False
    let ?step = "if Symbol.Kind (Symbol m) = IdentSym then send h target locals m
                 else Return (Memo m, h)"
    from False Cons.prems(2) obtain r h' where st: "?step = Return (r, h')"
      by (cases ?step) auto
    show ?thesis
    proof (cases "isStop r")
      case True
      with False st Cons.prems(2) show ?thesis by simp
    next
      case ns: False
      with False st Cons.prems(2)
      have "evalChain send h' locals r r ns = Return (Stop payload, h2)" by simp
      from Cons.IH[OF ns this] False st ns show ?thesis by simp
    qed
  qed
qed

lemma MessageEval_stop_append:
  assumes "\<not> isStop (Nil vm)"
      and "MessageEval send vm h (Some ns) locals = Return (Stop payload, h2)"
  shows "MessageEval send vm h (Some (ns @ rest)) locals = Return (Stop payload, h2)"
  using assms evalChain_stop_append[of "Nil vm" send h locals locals ns payload h2 rest]
  by (simp add: MessageEval_def)

text \<open>
  Claim C5: the signal \<^verbatim>\<open>Stop\<close>. When the evaluation of a block's body yields a \<^verbatim>\<open>Stop\<close>,
  \<^verbatim>\<open>reallyActivate\<close> returns its \<^verbatim>\<open>Result\<close>, and so does \<^verbatim>\<open>DoMessage\<close>, the top-level driver,
  each with the heap as that evaluation left it. One layer is taken off, no more: a payload
  that is itself a \<^verbatim>\<open>Stop\<close> is returned as it is. With the evaluation of a chain as the spec
  describes it, the statements that follow the one yielding the signal are skipped: when the
  statements \<open>ns\<close> of a body end in the signal, the activation of the body \<open>ns @ rest\<close>
  returns the payload and the heap that \<open>ns\<close> alone leaves, whatever \<open>rest\<close> is.
\<close>

theorem stop_skips_remaining_statements:
  "(cells h bref = Some (BlockCell b) \<and> Block.Message b = Some (ns @ rest) \<and> \<not> isStop (Nil vm) \<longrightarrow>
      (\<exists>blkLocals h1.
         blockLocals vm h bref b target locals msg = Return (blkLocals, h1) \<and>
         (MessageEval send vm h1 (Some ns) blkLocals = Return (Stop payload, h2) \<longrightarrow>
            reallyActivate (MessageEval send vm) vm h bref target locals msg =
              Return (payload, h2)))) \<and>
   (\<not> isStop (Nil vm) \<and> MessageEval send vm h (Some ns) locals = Return (Stop payload, h2) \<longrightarrow>
      DoMessage (MessageEval send vm) vm h (Some (ns @ rest)) locals = Return (payload, h2)) \<and>
   (cells h bref = Some (BlockCell b) \<longrightarrow>
      (\<exists>blkLocals h1.
         blockLocals vm h bref b target locals msg = Return (blkLocals, h1) \<and>
         (Ev h1 (Block.Message b) blkLocals = Return (Stop payload, h2) \<longrightarrow>
            reallyActivate Ev vm h bref target locals msg = Return (payload, h2)))) \<and>
   (Ev h body locals = Return (Stop payload, h2) \<longrightarrow>
      DoMessage Ev vm h body locals = Return (payload, h2)) \<and>
   unwrap (Stop (Stop payload)) = Stop payload"
proof -
  from blockLocals_slots[of vm h bref b target locals msg]
  obtain blkLocals h1 where bl: "blockLocals vm h bref b target locals msg = Return (blkLocals, h1)"
    by blast
  have code: "cells h bref = Some (BlockCell b) \<Longrightarrow>
      E h1 (Block.Message b) blkLocals = Return (Stop payload, h2) \<Longrightarrow>
      reallyActivate E vm h bref target locals msg = Return (payload, h2)" for E
    using reallyActivate_eq[of h bref b vm target locals msg blkLocals h1 E] bl
    by (simp add: unwrapResult_def unwrap_def)
  have 1: "cells h bref = Some (BlockCell b) \<and> Block.Message b = Some (ns @ rest) \<and>
      \<not> isStop (Nil vm) \<longrightarrow>
      (\<exists>blkLocals h1.
         blockLocals vm h bref b target locals msg = Return (blkLocals, h1) \<and>
         (MessageEval send vm h1 (Some ns) blkLocals = Return (Stop payload, h2) \<longrightarrow>
            reallyActivate (MessageEval send vm) vm h bref target locals msg =
              Return (payload, h2)))"
  proof (intro impI, elim conjE)
    assume c: "cells h bref = Some (BlockCell b)" and m: "Block.Message b = Some (ns @ rest)"
      and n: "\<not> isStop (Nil vm)"
    have "MessageEval send vm h1 (Some ns) blkLocals = Return (Stop payload, h2) \<longrightarrow>
            reallyActivate (MessageEval send vm) vm h bref target locals msg = Return (payload, h2)"
      using code[OF c, of "MessageEval send vm"] MessageEval_stop_append[OF n, of send h1 ns blkLocals payload h2 rest] m
      by simp
    with bl show "\<exists>blkLocals h1.
         blockLocals vm h bref b target locals msg = Return (blkLocals, h1) \<and>
         (MessageEval send vm h1 (Some ns) blkLocals = Return (Stop payload, h2) \<longrightarrow>
            reallyActivate (MessageEval send vm) vm h bref target locals msg =
              Return (payload, h2))"
      by blast
  qed
  have 2: "\<not> isStop (Nil vm) \<and> MessageEval send vm h (Some ns) locals = Return (Stop payload, h2) \<longrightarrow>
      DoMessage (MessageEval send vm) vm h (Some (ns @ rest)) locals = Return (payload, h2)"
    using MessageEval_stop_append[of vm send h ns locals payload h2 rest]
    by (simp add: DoMessage_def unwrapResult_def unwrap_def)
  have 3: "cells h bref = Some (BlockCell b) \<longrightarrow>
      (\<exists>blkLocals h1.
         blockLocals vm h bref b target locals msg = Return (blkLocals, h1) \<and>
         (Ev h1 (Block.Message b) blkLocals = Return (Stop payload, h2) \<longrightarrow>
            reallyActivate Ev vm h bref target locals msg = Return (payload, h2)))"
    using code[of Ev] bl by blast
  have 4: "Ev h body locals = Return (Stop payload, h2) \<longrightarrow>
      DoMessage Ev vm h body locals = Return (payload, h2)"
    by (simp add: DoMessage_def unwrapResult_def unwrap_def)
  have 5: "unwrap (Stop (Stop payload)) = Stop payload" by (simp add: unwrap_def)
  from 1 2 3 4 5 show ?thesis by blast
qed

theorem stop_skips_remaining_statements_witness:
  "cells heapS 5 = Some (BlockCell stopBlock) \<and>
   Block.Message stopBlock = Some (untilStop @ afterStop) \<and> \<not> isStop (Nil vm0) \<and>
   (\<exists>blkLocals h1.
      blockLocals vm0 heapS 5 stopBlock (Ptr 0) (Ptr 4) (identNode ''f'' []) = Return (blkLocals, h1) \<and>
      MessageEval demoSend vm0 h1 (Some untilStop) blkLocals =
        Return (Stop (NumberP (Finite 7)), h1) \<and>
      reallyActivate (MessageEval demoSend vm0) vm0 heapS 5 (Ptr 0) (Ptr 4) (identNode ''f'' []) =
        Return (NumberP (Finite 7), h1)) \<and>
   MessageEval demoSend vm0 heapS (Some untilStop) (Ptr 0) =
     Return (Stop (NumberP (Finite 7)), heapS) \<and>
   DoMessage (MessageEval demoSend vm0) vm0 heapS (Some (untilStop @ afterStop)) (Ptr 0) =
     Return (NumberP (Finite 7), heapS) \<and>
   slotAfter (reallyActivate (MessageEval demoSend vm0) vm0 heapS 5 (Ptr 0) (Ptr 4)
     (identNode ''f'' [])) (Ptr 11) ''seen'' = None \<and>
   slotAfter (reallyActivate (MessageEval demoSend vm0) vm0 heapS 6 (Ptr 0) (Ptr 4)
     (identNode ''f'' [])) (Ptr 11) ''seen'' = Some (NumberP (Finite 1))"
proof -
  have c: "cells heapS 5 = Some (BlockCell stopBlock)" by (simp add: heapS_def)
  have m: "Block.Message stopBlock = Some (untilStop @ afterStop)" by (simp add: stopBlock_def)
  have n: "\<not> isStop (Nil vm0)" by (simp add: isStop_def vm0_def)
  have e: "MessageEval demoSend vm0 h (Some untilStop) l = Return (Stop (NumberP (Finite 7)), h)" for h l
    by (simp add: MessageEval_def untilStop_def numberNode_def semiNode_def identNode_def
        zeroSymbol_def demoSend_def isStop_def vm0_def)
  have seen: "slotAfter (reallyActivate (MessageEval demoSend vm0) vm0 heapS 5 (Ptr 0) (Ptr 4)
       (identNode ''f'' [])) (Ptr 11) ''seen'' = None \<and>
     slotAfter (reallyActivate (MessageEval demoSend vm0) vm0 heapS 6 (Ptr 0) (Ptr 4)
       (identNode ''f'' [])) (Ptr 11) ''seen'' = Some (NumberP (Finite 1))"
    by code_simp
  note t = stop_skips_remaining_statements[where vm = vm0 and send = demoSend
      and ns = untilStop and rest = afterStop and payload = "NumberP (Finite 7)"
      and h = heapS and bref = 5 and b = stopBlock and target = "Ptr 0"
      and msg = "identNode ''f'' []" and Ev = "MessageEval demoSend vm0" and body = None]
  from t[where locals = "Ptr 4" and ?h2.0 = heapS] c m n
  obtain blkLocals h1 where
    bl: "blockLocals vm0 heapS 5 stopBlock (Ptr 0) (Ptr 4) (identNode ''f'' []) = Return (blkLocals, h1)"
    by blast
  from t[where locals = "Ptr 4" and ?h2.0 = h1] c m n bl e[of h1 blkLocals]
  have r: "reallyActivate (MessageEval demoSend vm0) vm0 heapS 5 (Ptr 0) (Ptr 4) (identNode ''f'' []) =
        Return (NumberP (Finite 7), h1)"
    by simp
  from t[where locals = "Ptr 0" and ?h2.0 = heapS] n e[of heapS "Ptr 0"]
  have d: "DoMessage (MessageEval demoSend vm0) vm0 heapS (Some (untilStop @ afterStop)) (Ptr 0) =
     Return (NumberP (Finite 7), heapS)"
    by simp
  from c m n bl e[of h1 blkLocals] r e[of heapS "Ptr 0"] d seen show ?thesis by blast
qed

text \<open>
  Claim C10: a block that is not activatable. \<^verbatim>\<open>Activate\<close> gives back the block itself and
  leaves the heap as it was. \<^verbatim>\<open>BlockCall\<close>, which \<^verbatim>\<open>initBlock\<close> installs as the slot
  \<open>call\<close> of every block, does not look at the flag: it runs \<^verbatim>\<open>reallyActivate\<close> on the
  block, with the block as target, so the body is evaluated in fresh locals.
\<close>

theorem inert_block_is_callable:
  assumes "cells h a = Some (BlockCell b)" and "\<not> Activatable b"
  shows "Activate Eval vm h a target locals msg = Return (Ptr a, h) \<and>
         BlockCall Eval vm h (Ptr a) locals msg = reallyActivate Eval vm h a (Ptr a) locals msg \<and>
         (\<exists>blkLocals h1.
            blockLocals vm h a b (Ptr a) locals msg = Return (blkLocals, h1) \<and>
            BlockCall Eval vm h (Ptr a) locals msg =
              unwrapResult (Eval h1 (Block.Message b) blkLocals)) \<and>
         mapIndex (snd (initBlock vm h)) (DefaultSlots (fst (initBlock vm h)) ''Block'') ''call'' =
           Some (CFunctionP BlockCall_func ''BlockCall(...)'')"
proof -
  have 1: "Activate Eval vm h a target locals msg = Return (Ptr a, h)"
    using assms by (simp add: Activate_def)
  have 2: "BlockCall Eval vm h (Ptr a) locals msg = reallyActivate Eval vm h a (Ptr a) locals msg"
    using assms by (simp add: BlockCall_def)
  from blockLocals_slots[of vm h a b "Ptr a" locals msg]
  obtain blkLocals h1 where bl: "blockLocals vm h a b (Ptr a) locals msg = Return (blkLocals, h1)"
    by blast
  have 3: "BlockCall Eval vm h (Ptr a) locals msg = unwrapResult (Eval h1 (Block.Message b) blkLocals)"
    using 2 reallyActivate_eq[OF assms(1) bl, of Eval] by simp
  have 4: "mapIndex (snd (initBlock vm h)) (DefaultSlots (fst (initBlock vm h)) ''Block'') ''call'' =
           Some (CFunctionP BlockCall_func ''BlockCall(...)'')"
    by (simp add: initBlock_def makeSlots_def mapIndex_def)
  from 1 2 3 4 bl show ?thesis by blast
qed

theorem inert_block_is_callable_witness:
  "cells heap0 5 = Some (BlockCell blockX) \<and> \<not> Activatable blockX \<and>
   Activate literalEval vm0 heap0 5 (Ptr 3) (Ptr 4) (identNode ''call'' []) = Return (Ptr 5, heap0) \<and>
   (\<exists>h1. BlockCall literalEval vm0 heap0 (Ptr 5) (Ptr 4) (identNode ''call'' []) =
           Return (NumberP (Finite 7), h1))"
proof -
  have c: "cells heap0 5 = Some (BlockCell blockX)" by (simp add: heap0_def)
  have n: "\<not> Activatable blockX" by (simp add: blockX_def)
  have e: "\<And>h1 l. unwrapResult (literalEval h1 (Block.Message blockX) l) = Return (NumberP (Finite 7), h1)"
    by (simp add: literalEval_def literalValue_def blockX_def numberNode_def zeroSymbol_def
        unwrapResult_def unwrap_def)
  from inert_block_is_callable[OF c n, of literalEval vm0 "Ptr 3" "Ptr 4" "identNode ''call'' []"]
  obtain blkLocals h1 where
    a: "Activate literalEval vm0 heap0 5 (Ptr 3) (Ptr 4) (identNode ''call'' []) = Return (Ptr 5, heap0)" and
    b: "BlockCall literalEval vm0 heap0 (Ptr 5) (Ptr 4) (identNode ''call'' []) =
          unwrapResult (literalEval h1 (Block.Message blockX) blkLocals)"
    by blast
  from b have "BlockCall literalEval vm0 heap0 (Ptr 5) (Ptr 4) (identNode ''call'' []) =
          Return (NumberP (Finite 7), h1)"
    by (simp only: e)
  with a c n show ?thesis by blast
qed

section \<open>The default slots are shared\<close>

lemma allNodes_iff:
  "allNodes P m \<longleftrightarrow> P m \<and> (\<forall>a \<in> set (Args m). \<forall>ns \<in> set_option a. \<forall>n \<in> set ns. allNodes P n)"
  by (cases m) simp

lemma allNodes_newMessage: "allNodes (usesDefaultSlots vm) (newMessage vm)"
  by (simp add: newMessage_def usesDefaultSlots_def)

lemma allNodes_setSymbol:
  "allNodes (usesDefaultSlots vm) m \<Longrightarrow> allNodes (usesDefaultSlots vm) (setSymbol s m)"
  by (cases m) (simp add: setSymbol_def usesDefaultSlots_def)

lemma allNodes_setMemo:
  "allNodes (usesDefaultSlots vm) m \<Longrightarrow> allNodes (usesDefaultSlots vm) (setMemo v m)"
  by (cases m) (simp add: setMemo_def usesDefaultSlots_def)

lemma allNodes_setArgs:
  "allNodes (usesDefaultSlots vm) m \<Longrightarrow> \<forall>a \<in> set as. \<forall>ns \<in> set_option a. chainShares vm ns \<Longrightarrow>
     allNodes (usesDefaultSlots vm) (setArgs as m)"
  by (cases m) (simp add: setArgs_def usesDefaultSlots_def chainShares_def)

lemma chainShares_args:
  "allNodes (usesDefaultSlots vm) m \<Longrightarrow> \<forall>a \<in> set (Args m). \<forall>ns \<in> set_option a. chainShares vm ns"
  by (cases m) (simp add: chainShares_def)

lemma chainShares_butlast: "chainShares vm ns \<Longrightarrow> chainShares vm (butlast ns)"
  by (auto simp: chainShares_def dest: in_set_butlastD)

lemma chainShares_append:
  "chainShares vm (ns @ ms) \<longleftrightarrow> chainShares vm ns \<and> chainShares vm ms"
  by (auto simp: chainShares_def)

lemma chainShares_onLast:
  assumes "chainShares vm ns" "ns \<noteq> [] \<Longrightarrow> allNodes (usesDefaultSlots vm) (f (last ns))"
  shows "ns \<noteq> [] \<Longrightarrow> chainShares vm (onLast f ns)"
  using assms by (auto simp: chainShares_def onLast_def dest: in_set_butlastD)
lemma goodResult_simps [simp]:
  "goodResult vm (Crash p)" "goodResult vm OutOfFuel"
  by (simp_all add: goodResult_def)

lemma chainInv_onLast:
  assumes "chainInv vm ns" "allNodes (usesDefaultSlots vm) (last ns) \<Longrightarrow> allNodes (usesDefaultSlots vm) (f (last ns))"
  shows "chainInv vm (onLast f ns)"
proof -
  from assms(1) have ne: "ns \<noteq> []" and sh: "chainShares vm ns" by (simp_all add: chainInv_def)
  from ne sh have "allNodes (usesDefaultSlots vm) (last ns)" by (simp add: chainShares_def)
  with assms(2) have "allNodes (usesDefaultSlots vm) (f (last ns))" by simp
  with sh show ?thesis
    by (auto simp: chainInv_def chainShares_def onLast_def dest: in_set_butlastD)
qed

lemma chainInv_snoc: "chainInv vm ns \<Longrightarrow> chainInv vm (ns @ [newMessage vm])"
  by (simp add: chainInv_def chainShares_def allNodes_newMessage)

lemma chainInv_new: "chainInv vm [newMessage vm]"
  by (simp add: chainInv_def chainShares_def allNodes_newMessage)

lemma return_good: "chainInv vm ns \<Longrightarrow> goodResult vm (return ns tok err ch)"
  by (auto simp: return_def deferred_def goodResult_def chainInv_def chainShares_butlast)

lemma chainInv_literal: "chainInv vm ns \<Longrightarrow> chainInv vm (literal s v ns)"
  unfolding literal_def by (rule chainInv_onLast) (simp_all add: allNodes_setSymbol allNodes_setMemo)

lemma chainInv_setSymbol: "chainInv vm ns \<Longrightarrow> chainInv vm (onLast (setSymbol s) ns)"
  by (rule chainInv_onLast) (simp_all add: allNodes_setSymbol)

lemma onToken_Advance:
  assumes "chainInv vm ns" "onToken lib open' ns tok = Advance ms"
  shows "chainInv vm ms"
  using assms
  by (auto simp: onToken_def Let_def chainInv_literal chainInv_setSymbol
      split: tokenKind.splits if_splits prod.splits option.splits error.splits)

lemma onToken_Bracket:
  assumes "chainInv vm ns" "onToken lib open' ns tok = Bracket ms"
  shows "chainInv vm ms"
proof -
  have b: "\<not> IsStart ns \<Longrightarrow> chainInv vm (butlast ns)"
    using assms(1) by (auto simp: IsStart_def chainInv_def chainShares_butlast)
  from assms b show ?thesis
    by (auto simp: onToken_def Let_def chainInv_setSymbol
        split: tokenKind.splits if_splits prod.splits option.splits error.splits)
qed

lemma argsCheck_args: "argsCheck as err = (bs, err1) \<Longrightarrow> bs = as \<or> bs = []"
  by (auto simp: argsCheck_def split: if_splits)

lemma chainInv_setArgs:
  assumes "chainInv vm ns" "\<forall>a \<in> set as. \<forall>c \<in> set_option a. chainShares vm c"
  shows "chainInv vm (onLast (setArgs as) ns)"
  using assms(1) by (rule chainInv_onLast) (simp add: allNodes_setArgs assms(2))

lemma chainInv_addArg:
  assumes "chainInv vm ns" "\<forall>c \<in> set_option amsg. chainShares vm c"
  shows "chainInv vm (onLast (\<lambda>m. setArgs (Args m @ [amsg]) m) ns)"
  using assms(1)
proof (rule chainInv_onLast)
  assume l: "allNodes (usesDefaultSlots vm) (last ns)"
  from chainShares_args[OF l] assms(2)
  show "allNodes (usesDefaultSlots vm) (setArgs (Args (last ns) @ [amsg]) (last ns))"
    by (intro allNodes_setArgs l) auto
qed

lemma chainInv_last_args:
  "chainInv vm ns \<Longrightarrow> \<forall>a \<in> set (Args (last ns)). \<forall>c \<in> set_option a. chainShares vm c"
  by (rule chainShares_args) (simp add: chainInv_def chainShares_def)

lemma parser_shares:
  "goodResult vm (parseRecurse n lib vm open' ch)"
  "chainInv vm ns \<longrightarrow> goodResult vm (parseLoop n lib vm open' ns tok0 ch)"
  "chainInv vm ns \<longrightarrow> goodResult vm (argLoop n lib vm open' ns tok ch)"
proof (induction n lib vm open' ch and n lib vm open' ns tok0 ch and n lib vm open' ns tok ch
    rule: parseRecurse_parseLoop_argLoop.induct)
  case (1 lib vm open' ch)
  then show ?case by simp
next
  case (2 n lib vm open' ch)
  then show ?case by (simp add: chainInv_new)
next
  case (3 lib vm open' ns tok0 ch)
  then show ?case by simp
next
  case (4 n lib vm open' ns tok0 ch)
  show ?case
  proof
    assume inv: "chainInv vm ns"
    show "goodResult vm (parseLoop (Suc n) lib vm open' ns tok0 ch)"
    proof (cases "recv ch")
      case (Crash p) then show ?thesis by simp
    next
      case OutOfFuel then show ?thesis by simp
    next
      case (Return r)
      show ?thesis
      proof (cases r)
        case None
        with Return inv show ?thesis by (simp add: return_good)
      next
        case (Some tc)
        obtain t c where tc: "tc = (t, c)" by (cases tc)
        show ?thesis
        proof (cases "onToken lib open' ns t")
          case (Ret e)
          with Return Some tc inv show ?thesis by (simp add: return_good)
        next
          case (Fail p)
          with Return Some tc show ?thesis by simp
        next
          case Skip
          from "4.IH"(1)[OF Return Some tc[symmetric] Skip] inv
          have "goodResult vm (parseLoop n lib vm open' ns t c)" by simp
          with Return Some tc Skip show ?thesis by simp
        next
          case (Advance ms)
          from onToken_Advance[OF inv Advance] have "chainInv vm (ms @ [newMessage vm])"
            by (rule chainInv_snoc)
          with "4.IH"(2)[OF Return Some tc[symmetric] Advance]
          have "goodResult vm (parseLoop n lib vm open' (ms @ [newMessage vm]) t c)" by simp
          with Return Some tc Advance show ?thesis by simp
        next
          case (Bracket ms)
          from onToken_Bracket[OF inv Bracket] "4.IH"(3)[OF Return Some tc[symmetric] Bracket]
          have "goodResult vm (argLoop n lib vm open' ms t c)" by simp
          with Return Some tc Bracket show ?thesis by simp
        qed
      qed
    qed
  qed
next
  case (5 lib vm open' ns tok ch)
  then show ?case by simp
next
  case (6 n lib vm open' ns tok ch)
  show ?case
  proof
    assume inv: "chainInv vm ns"
    show "goodResult vm (argLoop (Suc n) lib vm open' ns tok ch)"
    proof (cases "Value tok = []")
      case True then show ?thesis by simp
    next
      case False
      note ne = this
      show ?thesis
      proof (cases "parseRecurse n lib vm (Some (Value tok ! 0)) ch")
        case (Crash p) with ne show ?thesis by simp
      next
        case OutOfFuel with ne show ?thesis by simp
      next
        case (Return r)
        obtain atok amsg err ch' where r: "r = (atok, amsg, err, ch')" by (cases r) auto
        from "6.IH"(1)[OF ne] Return r have am: "\<forall>c \<in> set_option amsg. chainShares vm c"
          by (auto simp: goodResult_def)
        show ?thesis
        proof (cases "token.Kind atok = commaToken")
          case True
          show ?thesis
          proof (cases "(if amsg = None then Some (Errorf ''empty argument'') else err) \<noteq> None")
            case True
            with ne Return r \<open>token.Kind atok = commaToken\<close> inv show ?thesis
              by (simp add: return_good Let_def)
          next
            case False
            from "6.IH"(2)[OF ne Return r[symmetric] refl refl True refl False]
              chainInv_addArg[OF inv am]
            have "goodResult vm (argLoop n lib vm open' (onLast (\<lambda>m. setArgs (Args m @ [amsg]) m) ns) tok ch')"
              by simp
            with ne Return r True False show ?thesis by (simp add: Let_def)
          qed
        next
          case False
          obtain bs err1 where ac: "argsCheck (Args (last ns)) err = (bs, err1)"
            by (cases "argsCheck (Args (last ns)) err")
          from argsCheck_args[OF ac] chainInv_last_args[OF inv]
          have bs: "\<forall>a \<in> set bs. \<forall>c \<in> set_option a. chainShares vm c" by auto
          show ?thesis
          proof (cases "err1 \<noteq> None")
            case True
            with ne Return r False ac chainInv_setArgs[OF inv bs] show ?thesis
              by (simp add: return_good)
          next
            case e: False
            from bs am have "\<forall>a \<in> set (bs @ [amsg]). \<forall>c \<in> set_option a. chainShares vm c" by auto
            from chainInv_snoc[OF chainInv_setArgs[OF inv this]]
              "6.IH"(3)[OF ne Return r[symmetric] refl refl False ac[symmetric] e]
            have "goodResult vm (parseLoop n lib vm open' (onLast (setArgs (bs @ [amsg])) ns @ [newMessage vm]) tok ch')"
              by simp
            with ne Return r False ac e show ?thesis by simp
          qed
        qed
      qed
    qed
  qed
qed

lemma Parse_shares:
  assumes "Parse lib vm fin source = Return (Some ns, err)"
  shows "chainShares vm ns"
proof -
  let ?ch = "chanOf (lex fin source)"
  from assms obtain tok ch' where
    "parseRecurse (3 * length (fst ?ch) + 2) lib vm None ?ch = Return (tok, Some ns, err, ch')"
    by (auto simp: Parse_def Let_def split: outcome.splits list.splits option.splits)
  with parser_shares(1)[of vm "3 * length (fst ?ch) + 2" lib None ?ch]
  show ?thesis by (simp add: goodResult_def)
qed

lemma ObjectBlock_slots:
  assumes "ObjectBlock Name vm h target locals msg = Return (blk, h1)"
  shows "\<exists>a b. blk = Ptr a \<and> cells h1 a = Some (BlockCell b) \<and>
               Object.Slots b = DefaultSlots vm ''Block''"
  using assms by (auto simp: ObjectBlock_def alloc_def split: if_splits)

lemma ObjectMethod_slots:
  assumes "ObjectMethod Name vm h target locals msg = Return (blk, h1)"
  shows "\<exists>a b. blk = Ptr a \<and> cells h1 a = Some (BlockCell b) \<and>
               Object.Slots b = DefaultSlots vm ''Block''"
proof -
  from assms obtain h0 where ob: "ObjectBlock Name vm h target locals msg = Return (blk, h0)"
    by (auto simp: ObjectMethod_def split: outcome.splits Interface.splits option.splits cell.splits)
  from ObjectBlock_slots[OF ob] obtain a b where
    ab: "blk = Ptr a" "cells h0 a = Some (BlockCell b)" "Object.Slots b = DefaultSlots vm ''Block''"
    by blast
  with assms ob have "h1 = h0\<lparr>cells := (cells h0)(a \<mapsto> BlockCell (b\<lparr>Activatable := True, Self := GoNil\<rparr>))\<rparr>"
    by (simp add: ObjectMethod_def)
  with ab show ?thesis by simp
qed

lemma SetSlot_shared:
  assumes "slotsOf h x = Return slots" "slotsOf h y = Return slots" "SetSlot h x name v = Return h'"
  shows "ownSlot h' y name = Some v"
proof -
  from assms(1,3) obtain d where d: "slots = Some d" and
    h': "h' = h\<lparr>slotMaps := (slotMaps h)
            (d \<mapsto> (case slotMaps h d of None \<Rightarrow> Map.empty | Some m \<Rightarrow> m)(name \<mapsto> v))\<rparr>"
    by (auto simp: SetSlot_def mapAssign_def split: option.splits)
  have "slotsOf h' y = slotsOf h y"
    by (simp add: h' slotsOf_def split: Interface.splits list.splits)
  with assms(2) d show ?thesis
    by (simp add: ownSlot_def mapIndex_def h')
qed

text \<open>
  Claim C9: the default slots are shared. A block made by \<^verbatim>\<open>ObjectBlock\<close> or
  \<^verbatim>\<open>ObjectMethod\<close> has as its \<^verbatim>\<open>Slots\<close> the map \<^verbatim>\<open>vm.DefaultSlots["Block"]\<close> itself, and every
  message node the parser builds, in the chain and in its argument chains, has the map
  \<^verbatim>\<open>vm.DefaultSlots["Message"]\<close> itself: the same map, not a copy. So when two objects have
  the default map of their kind as slots, a slot set on one of them is a slot of the other.
\<close>

theorem default_slots_are_shared:
  "(ObjectBlock Name vm h target locals msg = Return (blk, h1) \<longrightarrow>
      (\<exists>a b. blk = Ptr a \<and> cells h1 a = Some (BlockCell b) \<and>
             Object.Slots b = DefaultSlots vm ''Block'')) \<and>
   (ObjectMethod Name vm h target locals msg = Return (blk, h1) \<longrightarrow>
      (\<exists>a b. blk = Ptr a \<and> cells h1 a = Some (BlockCell b) \<and>
             Object.Slots b = DefaultSlots vm ''Block'')) \<and>
   (Parse lib vm fin source = Return (Some ns, err) \<longrightarrow>
      (\<forall>n \<in> set ns. allNodes (\<lambda>m. Message.Slots m = DefaultSlots vm ''Message'') n)) \<and>
   (slotsOf h x = Return (DefaultSlots vm kind) \<and> slotsOf h y = Return (DefaultSlots vm kind) \<and>
    SetSlot h x name v = Return h' \<longrightarrow> ownSlot h' y name = Some v)"
proof (intro conjI impI)
  assume "ObjectBlock Name vm h target locals msg = Return (blk, h1)"
  then show "\<exists>a b. blk = Ptr a \<and> cells h1 a = Some (BlockCell b) \<and>
             Object.Slots b = DefaultSlots vm ''Block''"
    by (rule ObjectBlock_slots)
next
  assume "ObjectMethod Name vm h target locals msg = Return (blk, h1)"
  then show "\<exists>a b. blk = Ptr a \<and> cells h1 a = Some (BlockCell b) \<and>
             Object.Slots b = DefaultSlots vm ''Block''"
    by (rule ObjectMethod_slots)
next
  assume "Parse lib vm fin source = Return (Some ns, err)"
  from Parse_shares[OF this]
  show "\<forall>n \<in> set ns. allNodes (\<lambda>m. Message.Slots m = DefaultSlots vm ''Message'') n"
    by (simp add: chainShares_def usesDefaultSlots_def[abs_def])
next
  assume "slotsOf h x = Return (DefaultSlots vm kind) \<and> slotsOf h y = Return (DefaultSlots vm kind) \<and>
    SetSlot h x name v = Return h'"
  then show "ownSlot h' y name = Some v"
    using SetSlot_shared by blast
qed

theorem default_slots_are_shared_witness:
  "ObjectBlock nameOf vm0 heap0 (Ptr 0) (Ptr 2) blockMsg = Return (Ptr 10, heapB) \<and>
   (\<exists>b. cells heapB 10 = Some (BlockCell b) \<and> Object.Slots b = DefaultSlots vm0 ''Block'') \<and>
   ObjectMethod nameOf vm0 heap0 (Ptr 0) (Ptr 2) blockMsg = Return (Ptr 10, heapM) \<and>
   (\<exists>b. cells heapM 10 = Some (BlockCell b) \<and> Object.Slots b = DefaultSlots vm0 ''Block'') \<and>
   Parse goStrconv vm0 EOF ''f(1,2)'' =
     Return (Some [identNode ''f'' [Some [numberNode 1], Some [numberNode 2]]], None) \<and>
   chainShares vm0 [identNode ''f'' [Some [numberNode 1], Some [numberNode 2]]] \<and>
   slotsOf heap0 (Ptr 5) = Return (DefaultSlots vm0 ''Block'') \<and>
   slotsOf heap0 (Ptr 6) = Return (DefaultSlots vm0 ''Block'') \<and>
   (\<exists>h'. SetSlot heap0 (Ptr 5) ''x'' (NumberP (Finite 1)) = Return h' \<and>
         ownSlot h' (Ptr 6) ''x'' = Some (NumberP (Finite 1)))"
proof -
  have p: "Parse goStrconv vm0 EOF ''f(1,2)'' =
     Return (Some [identNode ''f'' [Some [numberNode 1], Some [numberNode 2]]], None)"
    by code_simp
  have s5: "slotsOf heap0 (Ptr 5) = Return (DefaultSlots vm0 ''Block'')"
    by (simp add: slotsOf_def heap0_def blockX_def vm0_def)
  have s6: "slotsOf heap0 (Ptr 6) = Return (DefaultSlots vm0 ''Block'')"
    by (simp add: slotsOf_def heap0_def blockX_def vm0_def)
  obtain h' where ss: "SetSlot heap0 (Ptr 5) ''x'' (NumberP (Finite 1)) = Return h'"
    by (simp add: SetSlot_def s5 mapAssign_def vm0_def)
  note t = default_slots_are_shared[where Name = nameOf and vm = vm0 and h = heap0
      and target = "Ptr 0" and locals = "Ptr 2" and msg = blockMsg and blk = "Ptr 10"
      and lib = goStrconv and fin = EOF and source = "''f(1,2)''"
      and ns = "[identNode ''f'' [Some [numberNode 1], Some [numberNode 2]]]" and err = None
      and x = "Ptr 5" and y = "Ptr 6" and kind = "''Block''" and name = "''x''"
      and v = "NumberP (Finite 1)" and h' = h']
  from t[where ?h1.0 = heapB] ObjectBlock_blockMsg
  have 1: "\<exists>b. cells heapB 10 = Some (BlockCell b) \<and> Object.Slots b = DefaultSlots vm0 ''Block''"
    by simp
  from t[where ?h1.0 = heapM] ObjectMethod_blockMsg
  have 2: "\<exists>b. cells heapM 10 = Some (BlockCell b) \<and> Object.Slots b = DefaultSlots vm0 ''Block''"
    by simp
  from t[where ?h1.0 = heapB] p
  have 3: "chainShares vm0 [identNode ''f'' [Some [numberNode 1], Some [numberNode 2]]]"
    by (simp add: chainShares_def usesDefaultSlots_def[abs_def])
  from t[where ?h1.0 = heapB] s5 s6 ss
  have 4: "ownSlot h' (Ptr 6) ''x'' = Some (NumberP (Finite 1))"
    by simp
  from 1 2 3 4 p s5 s6 ss ObjectBlock_blockMsg ObjectMethod_blockMsg show ?thesis by simp
qed

section \<open>The bound on the nesting of the parser is never reached\<close>

text \<open>
  Every call of \<open>parseLoop\<close> but the first follows the receipt of a token or the return of an
  argument, and \<open>argLoop\<close> calls itself again only after a comma, which is a token received.
  So three calls for each token and two more are enough, and \<open>Parse\<close> never stops at the
  bound: it returns, or it crashes as the program does.
\<close>

lemma fuelled_return:
  "length (fst ch) \<le> L \<Longrightarrow> (token.Kind t = commaToken \<longrightarrow> length (fst ch) < L \<or> t = tok0) \<Longrightarrow>
     fuelled L tok0 (return ns t err ch)"
  by (cases ch) (simp add: fuelled_def return_def deferred_def split: outcome.splits)

lemma fuelled_mono:
  "fuelled L' t' res \<Longrightarrow> L' < L \<Longrightarrow> fuelled L tok0 res"
  by (auto simp: fuelled_def split: outcome.splits)

lemma fuelled_same:
  "fuelled L' tok0 res \<Longrightarrow> L' \<le> L \<Longrightarrow> fuelled L tok0 res"
  by (auto simp: fuelled_def split: outcome.splits)

lemma recv_length:
  "recv ch = Return (Some (tok, ch')) \<Longrightarrow> Suc (length (fst ch')) = length (fst ch)"
  by (auto simp: recv_def split: list.splits option.splits prod.splits)

lemma parser_fuelled:
  "3 * length (fst ch) + 2 \<le> n \<longrightarrow> fuelled (length (fst ch)) zeroToken (parseRecurse n lib vm open' ch)"
  "3 * length (fst ch) + 1 \<le> n \<longrightarrow> fuelled (length (fst ch)) tok0 (parseLoop n lib vm open' ns tok0 ch)"
  "3 * length (fst ch) + 3 \<le> n \<longrightarrow> fuelled (length (fst ch)) tok (argLoop n lib vm open' ns tok ch)"
proof (induction n lib vm open' ch and n lib vm open' ns tok0 ch and n lib vm open' ns tok ch
    rule: parseRecurse_parseLoop_argLoop.induct)
  case (1 lib vm open' ch)
  then show ?case by simp
next
  case (2 n lib vm open' ch)
  then show ?case by simp
next
  case (3 lib vm open' ns tok0 ch)
  then show ?case by simp
next
  case (4 n lib vm open' ns tok0 ch)
  show ?case
  proof
    assume fuel: "3 * length (fst ch) + 1 \<le> Suc n"
    show "fuelled (length (fst ch)) tok0 (parseLoop (Suc n) lib vm open' ns tok0 ch)"
    proof (cases "recv ch")
      case (Crash p) then show ?thesis by (simp add: fuelled_def)
    next
      case OutOfFuel then show ?thesis by (cases ch) (auto simp: recv_def split: list.splits option.splits)
    next
      case (Return r)
      show ?thesis
      proof (cases r)
        case None
        with Return show ?thesis by (simp add: fuelled_return)
      next
        case (Some tc)
        obtain tok ch' where tc: "tc = (tok, ch')" by (cases tc)
        from Return Some tc have len: "Suc (length (fst ch')) = length (fst ch)"
          by (simp add: recv_length)
        show ?thesis
        proof (cases "onToken lib open' ns tok")
          case (Ret err)
          with Return Some tc len show ?thesis by (simp add: fuelled_return)
        next
          case (Fail p)
          with Return Some tc show ?thesis by (simp add: fuelled_def)
        next
          case Skip
          from "4.IH"(1)[OF Return Some tc[symmetric] Skip] fuel len
          have "fuelled (length (fst ch')) tok (parseLoop n lib vm open' ns tok ch')" by simp
          from fuelled_mono[OF this, of "length (fst ch)" tok0] len Return Some tc Skip
          show ?thesis by simp
        next
          case (Advance ms)
          from "4.IH"(2)[OF Return Some tc[symmetric] Advance] fuel len
          have "fuelled (length (fst ch')) tok
              (parseLoop n lib vm open' (ms @ [newMessage vm]) tok ch')" by simp
          from fuelled_mono[OF this, of "length (fst ch)" tok0] len Return Some tc Advance
          show ?thesis by simp
        next
          case (Bracket ms)
          from "4.IH"(3)[OF Return Some tc[symmetric] Bracket] fuel len
          have "fuelled (length (fst ch')) tok (argLoop n lib vm open' ms tok ch')" by simp
          from fuelled_mono[OF this, of "length (fst ch)" tok0] len Return Some tc Bracket
          show ?thesis by simp
        qed
      qed
    qed
  qed
next
  case (5 lib vm open' ns tok ch)
  then show ?case by simp
next
  case (6 n lib vm open' ns tok ch)
  show ?case
  proof
    assume fuel: "3 * length (fst ch) + 3 \<le> Suc n"
    show "fuelled (length (fst ch)) tok (argLoop (Suc n) lib vm open' ns tok ch)"
    proof (cases "Value tok = []")
      case True then show ?thesis by (simp add: fuelled_def)
    next
      case ne: False
      from "6.IH"(1)[OF ne] fuel
      have f1: "fuelled (length (fst ch)) zeroToken (parseRecurse n lib vm (Some (Value tok ! 0)) ch)"
        by simp
      show ?thesis
      proof (cases "parseRecurse n lib vm (Some (Value tok ! 0)) ch")
        case (Crash p) with ne show ?thesis by (simp add: fuelled_def)
      next
        case OutOfFuel with f1 show ?thesis by (simp add: fuelled_def)
      next
        case (Return r)
        obtain atok amsg err ch' where r: "r = (atok, amsg, err, ch')" by (cases r)
        from f1 Return r have le: "length (fst ch') \<le> length (fst ch)"
          and lt: "token.Kind atok = commaToken \<longrightarrow> length (fst ch') < length (fst ch)"
          by (cases ch'; auto simp: fuelled_def zeroToken_def)+
        show ?thesis
        proof (cases "token.Kind atok = commaToken")
          case comma: True
          define err1 where "err1 = (if amsg = None then Some (Errorf ''empty argument'') else err)"
          show ?thesis
          proof (cases "err1 \<noteq> None")
            case True
            with ne Return r comma lt le err1_def show ?thesis
              by (simp add: Let_def fuelled_return)
          next
            case False
            from "6.IH"(2)[OF ne Return r[symmetric] refl refl comma err1_def False] fuel lt comma
            have "fuelled (length (fst ch')) tok
                (argLoop n lib vm open' (onLast (\<lambda>m. setArgs (Args m @ [amsg]) m) ns) tok ch')"
              by simp
            from fuelled_same[OF this le] ne Return r comma err1_def False show ?thesis
              by (simp add: Let_def)
          qed
        next
          case nc: False
          obtain as err1 where ac: "argsCheck (Args (last ns)) err = (as, err1)"
            by (cases "argsCheck (Args (last ns)) err")
          show ?thesis
          proof (cases "err1 \<noteq> None")
            case True
            with ne Return r nc le ac show ?thesis by (simp add: fuelled_return)
          next
            case False
            from "6.IH"(3)[OF ne Return r[symmetric] refl refl nc ac[symmetric] False] fuel le
            have "fuelled (length (fst ch')) tok
                (parseLoop n lib vm open' (onLast (setArgs (as @ [amsg])) ns @ [newMessage vm]) tok ch')"
              by simp
            from fuelled_same[OF this le] ne Return r nc ac False show ?thesis by simp
          qed
        qed
      qed
    qed
  qed
qed

lemma Parse_has_fuel: "Parse lib vm fin source \<noteq> OutOfFuel"
proof -
  let ?ch = "chanOf (lex fin source)"
  from parser_fuelled(1)[of ?ch "3 * length (fst ?ch) + 2" lib vm None]
  have "parseRecurse (3 * length (fst ?ch) + 2) lib vm None ?ch \<noteq> OutOfFuel"
    by (auto simp: fuelled_def)
  then show ?thesis
    unfolding Parse_def Let_def
    by (auto split: outcome.splits list.splits option.splits simp del: parseRecurse.simps)
qed

section \<open>A character without a transition\<close>


lemma char_eq_code: "r = c \<longleftrightarrow> (of_char r :: nat) = of_char c"
  by simp













section \<open>A digit run with a trailing dot\<close>

lemma accept_run:
  assumes "list_all p ds" and "rest = [] \<or> \<not> p (hd rest)"
  shows "accept fin p (ds @ rest) b =
           (b @ ds, if rest = [] then CHR 0x00 else hd rest,
            if rest = [] then Some fin else None, rest)"
  using assms
proof (induction ds arbitrary: b)
  case Nil
  then show ?case by (cases rest) auto
next
  case (Cons d ds)
  then show ?case by simp
qed

lemma digit_not_sign:
  "isDigit c \<Longrightarrow> c \<noteq> CHR ''+'' \<and> c \<noteq> CHR ''-'' \<and> \<not> isSpace c"
  by (auto simp: isDigit_def isSpace_def less_eq_char_def)

lemma eatSpace_digit:
  assumes "isDigit c"
  shows "eatSpace fin (c # src) = Next [] (Some LexNumber) (c # src)"
proof -
  from assms have "(of_char c :: nat) \<in> {48..57}"
    by (simp add: isDigit_def less_eq_char_def)
  then have "\<not> isSpace c" "c \<noteq> CHR '';''" "c \<noteq> CHR 0x0A"
    "\<not> (CHR ''a'' \<le> c \<and> c \<le> CHR ''z'')" "\<not> (CHR ''A'' \<le> c \<and> c \<le> CHR ''Z'')"
    "c \<noteq> CHR ''_''" "\<not> CHR 0x80 \<le> c" "\<not> isOpRune c"
    "c \<notin> set ''([{''" "c \<notin> set '')]}''" "c \<noteq> CHR '',''"
    unfolding isSpace_def isOpRune_def less_eq_char_def
    by (auto simp: char_eq_code[of c])
  with assms show ?thesis by (simp add: isDigit_def)
qed

lemma takeWhile_digits_dot:
  "list_all isDigit ds \<Longrightarrow> takeWhile isDigit (ds @ ''.'') = ds \<and> dropWhile isDigit (ds @ ''.'') = ''.''"
  by (induction ds) (simp_all add: isDigit_def)

lemma goParseFloat_trailing_dot:
  assumes "ds \<noteq> []" and "list_all isDigit ds" and "\<not> outOfRange (digitsVal 10 ds 0) 0"
  shows "goParseFloat (ds @ ''.'') = (Finite (of_int (digitsVal 10 ds 0)), None)"
proof -
  from assms(1) obtain d ds' where ds: "ds = d # ds'" by (cases ds) auto
  with assms(2) have "isDigit d" by simp
  from digit_not_sign[OF this] ds have s: "stripSign (ds @ ''.'') = (False, ds @ ''.'')"
    by (simp add: stripSign_def)
  show ?thesis
    unfolding goParseFloat_def s
    using takeWhile_digits_dot[OF assms(2)] assms(1,3)
    by (simp add: Let_def exponent_def decimal_def)
qed

lemma Parse_one_number:
  assumes "lex fin src = Closed [numberTok v]" and "ParseFloat lib v = (f, None)"
  shows "Parse lib vm fin src =
           Return (Some [Message.Message (DefaultSlots vm ''Message'') [BaseObject vm]
                           (zeroSymbol\<lparr>Kind := NumSym, Num := f\<rparr>) [] (NumberP f)], None)"
proof -
  have ch: "chanOf (lex fin src) = ([numberTok v], None)"
    using assms(1) by (simp add: chanOf_def)
  have fuel: "3 * length (fst ([numberTok v], None :: char option)) + 2 = Suc (Suc (Suc (Suc (Suc 0))))"
    by simp
  have on: "onToken lib None [newMessage vm] (numberTok v) =
      Advance [Message.Message (DefaultSlots vm ''Message'') [BaseObject vm]
                           (zeroSymbol\<lparr>Kind := NumSym, Num := f\<rparr>) [] (NumberP f)]"
    using assms(2)
    by (simp add: onToken_def numberTok_def literal_def onLast_def newMessage_def setMemo_def
        setSymbol_def)
  show ?thesis
    unfolding Parse_def Let_def ch fuel
    by (simp add: recv_def on) (simp add: return_def deferred_def zeroSymbol_def)
qed

text \<open>
  Claim C8, as stated, fails: a trailing dot is not an error. \<^verbatim>\<open>3.\<close> at the end of the input,
  and before a character that is not a digit, is lexed as the number token \<open>3.\<close>, which
  the parser decodes to 3.
\<close>

theorem trailing_dot_is_malformed_counterexample:
  "lex EOF ''3.'' = Closed [numberTok ''3.''] \<and>
   Parse goStrconv vm0 EOF ''3.'' = Return (Some [numberNode 3], None) \<and>
   lex EOF ''3. x'' = Closed [numberTok ''3.'', identTok ''x''] \<and>
   Parse goStrconv vm0 EOF ''3. x'' = Return (Some [numberNode 3, identNode ''x'' []], None)"
  by code_simp

text \<open>
  Claim C8, amended: a decimal digit run followed by \<open>.\<close> needs no further digit. When the
  dot is followed by the end of the input, or by a character that is neither a digit nor
  \<open>e\<close> or \<open>E\<close>, \<^verbatim>\<open>lexNumber\<close> sends one number token, whose text is the digit run and the
  dot, and no malformed token; lexing goes on after the dot. When the input is the digit run
  and the dot, this token is the only one, the parser hands its text to \<^verbatim>\<open>ParseFloat\<close> and,
  when that accepts it, returns the chain of the one number node with no error; the decimal
  reading of \<^verbatim>\<open>ParseFloat\<close> accepts it, with the value of the digit run, unless the value is
  out of range.
\<close>

theorem lexNumber_trailing_dot:
  assumes "ds \<noteq> []" and "list_all isDigit ds"
      and "rest = [] \<or> \<not> isDigit (hd rest) \<and> hd rest \<noteq> CHR ''e'' \<and> hd rest \<noteq> CHR ''E''"
  shows "lexNumber EOF (ds @ CHR ''.'' # rest) =
           Next [numberTok (ds @ ''.'')] (if rest = [] then None else Some EatSpace) rest \<and>
         lexLoop EOF (Some EatSpace) (ds @ CHR ''.'' # rest) sent =
           lexLoop EOF (if rest = [] then None else Some EatSpace) rest (sent @ [numberTok (ds @ ''.'')]) \<and>
         lex EOF (ds @ ''.'') = Closed [numberTok (ds @ ''.'')] \<and>
         (ParseFloat lib (ds @ ''.'') = (f, None) \<longrightarrow>
            Parse lib vm EOF (ds @ ''.'') =
              Return (Some [Message.Message (DefaultSlots vm ''Message'') [BaseObject vm]
                              (zeroSymbol\<lparr>Kind := NumSym, Num := f\<rparr>) [] (NumberP f)], None)) \<and>
         (\<not> outOfRange (digitsVal 10 ds 0) 0 \<longrightarrow>
            goParseFloat (ds @ ''.'') = (Finite (of_int (digitsVal 10 ds 0)), None))"
proof -
  have nd: "\<not> isDigit (CHR ''.'')" by (simp add: isDigit_def)
  have num: "lexNumber EOF (ds @ CHR ''.'' # rest') =
           Next [numberTok (ds @ ''.'')] (if rest' = [] then None else Some EatSpace) rest'"
    if r: "rest' = [] \<or> \<not> isDigit (hd rest') \<and> hd rest' \<noteq> CHR ''e'' \<and> hd rest' \<noteq> CHR ''E''"
    for rest'
  proof -
    have a1: "accept EOF isDigit (ds @ CHR ''.'' # rest') [] = (ds, CHR ''.'', None, CHR ''.'' # rest')"
      using accept_run[OF assms(2), of "CHR ''.'' # rest'" EOF "[]"] nd by simp
    have a2: "accept EOF isDigit rest' (ds @ ''.'') =
        (ds @ ''.'', if rest' = [] then CHR 0x00 else hd rest', if rest' = [] then Some EOF else None, rest')"
      using accept_run[of isDigit "[]" rest' EOF "ds @ ''.''"] r by auto
    show ?thesis
    proof (cases "rest' = []")
      case True
      with a1 a2 show ?thesis
        by (simp add: lexNumber_def sends_def lexsend_def numberTok_def)
    next
      case False
      with a1 a2 r show ?thesis
        by (simp add: lexNumber_def lexNumber_exp_def sends_def lexsend_def numberTok_def)
    qed
  qed
  from assms(1) obtain d ds' where ds: "ds = d # ds'" by (cases ds) auto
  with assms(2) have d: "isDigit d" by simp
  have loop: "lexLoop EOF (Some EatSpace) (ds @ CHR ''.'' # rest') sent' =
      lexLoop EOF (if rest' = [] then None else Some EatSpace) rest' (sent' @ [numberTok (ds @ ''.'')])"
    if r: "rest' = [] \<or> \<not> isDigit (hd rest') \<and> hd rest' \<noteq> CHR ''e'' \<and> hd rest' \<noteq> CHR ''E''"
    for rest' sent'
  proof -
    have "lexLoop EOF (Some EatSpace) (ds @ CHR ''.'' # rest') sent' =
        lexLoop EOF (Some LexNumber) (ds @ CHR ''.'' # rest') sent'"
      using eatSpace_digit[OF d, of EOF "ds' @ CHR ''.'' # rest'"] ds
      by (simp del: eatSpace.simps)
    also have "\<dots> = lexLoop EOF (if rest' = [] then None else Some EatSpace) rest'
        (sent' @ [numberTok (ds @ ''.'')])"
      using num[OF r] by simp
    finally show ?thesis .
  qed
  have lx: "lex EOF (ds @ ''.'') = Closed [numberTok (ds @ ''.'')]"
    using loop[of "[]" "[]"] by (simp add: lex_def)
  have pf: "ParseFloat lib (ds @ ''.'') = (f, None) \<longrightarrow>
            Parse lib vm EOF (ds @ ''.'') =
              Return (Some [Message.Message (DefaultSlots vm ''Message'') [BaseObject vm]
                              (zeroSymbol\<lparr>Kind := NumSym, Num := f\<rparr>) [] (NumberP f)], None)"
    using Parse_one_number[OF lx, of lib f vm] by blast
  have gf: "\<not> outOfRange (digitsVal 10 ds 0) 0 \<longrightarrow>
            goParseFloat (ds @ ''.'') = (Finite (of_int (digitsVal 10 ds 0)), None)"
    using goParseFloat_trailing_dot[OF assms(1,2)] by blast
  from num[OF assms(3)] loop[OF assms(3), of sent] lx pf gf show ?thesis by blast
qed

theorem lexNumber_trailing_dot_witness:
  "''3'' \<noteq> [] \<and> list_all isDigit ''3'' \<and> \<not> isDigit (hd '' x'') \<and>
   lexNumber EOF ''3. x'' = Next [numberTok ''3.''] (Some EatSpace) '' x'' \<and>
   lexNumber EOF ''3.'' = Next [numberTok ''3.''] None [] \<and>
   lexLoop EOF (Some EatSpace) ''3.'' [identTok ''a''] = Closed [identTok ''a'', numberTok ''3.''] \<and>
   lex EOF ''3.'' = Closed [numberTok ''3.''] \<and>
   ParseFloat goStrconv ''3.'' = (Finite 3, None) \<and>
   Parse goStrconv vm0 EOF ''3.'' = Return (Some [numberNode 3], None) \<and>
   \<not> outOfRange (digitsVal 10 ''3'' 0) 0 \<and>
   goParseFloat ''3.'' = (Finite 3, None)"
proof -
  have d: "list_all isDigit ''3''" by (simp add: isDigit_def)
  have n: "\<not> isDigit (hd '' x'')" by (simp add: isDigit_def)
  have v: "digitsVal 10 ''3'' 0 = 3" by (simp add: digitVal_def)
  have o: "\<not> outOfRange (digitsVal 10 ''3'' 0) 0" unfolding v by (simp add: outOfRange_def)
  note t = lexNumber_trailing_dot[of "''3''", OF _ d]
  from t[of "'' x''"] n
  have 1: "lexNumber EOF ''3. x'' = Next [numberTok ''3.''] (Some EatSpace) '' x''" by simp
  from t[of "[]" "[identTok ''a'']" goStrconv "Finite 3" vm0] o
  have 2: "lexNumber EOF ''3.'' = Next [numberTok ''3.''] None []"
    and 3: "lexLoop EOF (Some EatSpace) ''3.'' [identTok ''a''] = Closed [identTok ''a'', numberTok ''3.'']"
    and 4: "lex EOF ''3.'' = Closed [numberTok ''3.'']"
    and 5: "goParseFloat ''3.'' = (Finite 3, None)"
    by (simp_all add: digitVal_def)
  from 5 have 6: "ParseFloat goStrconv ''3.'' = (Finite 3, None)" by (simp add: goStrconv_def)
  from t[of "[]" "[]" goStrconv "Finite 3" vm0] 6
  have 7: "Parse goStrconv vm0 EOF ''3.'' = Return (Some [numberNode 3], None)"
    by (simp add: numberNode_def vm0_def)
  from d n 1 2 3 4 5 6 7 o show ?thesis by simp
qed

end
